theory Spec2Isabelle
  imports Main
begin

section \<open>Go library functions that filehandling.go calls\<close>

text \<open>
  A Go string is a sequence of bytes, here a \<^typ>\<open>string\<close>. The functions of this section
  belong to the Go standard library (packages strings, strconv, regexp), not to the
  repository; they are written down from their documentation, as far as filehandling.go
  uses them.

  \<^verbatim>\<open>strings.ToLower\<close> lowers every letter of Unicode, with the case tables of the Go
  release in use. It is a parameter, named \<open>ToLower\<close>, of the functions below that call it,
  and every statement below holds for whatever function it is. \<open>lower_ok\<close> is what every
  release guarantees of it: on a string of ASCII bytes it lowers the letters A to Z and
  keeps every other byte. \<open>asciiToLower\<close> is that function of ASCII strings; the examples,
  whose file names are ASCII, are run with it.
\<close>

definition upperLetters :: string where
  "upperLetters = ''ABCDEFGHIJKLMNOPQRSTUVWXYZ''"

definition lowerLetters :: string where
  "lowerLetters = ''abcdefghijklmnopqrstuvwxyz''"

definition toLowerChar :: "char \<Rightarrow> char" where
  "toLowerChar c = (case map_of (zip upperLetters lowerLetters) c of None \<Rightarrow> c | Some d \<Rightarrow> d)"

definition asciiToLower :: "string \<Rightarrow> string" where
  "asciiToLower s = map toLowerChar s"



text \<open>
  \<^verbatim>\<open>strings.Join(a, sep)\<close>: the elements of \<open>a\<close> with \<open>sep\<close> between each two.
\<close>

fun Join :: "string list \<Rightarrow> string \<Rightarrow> string" where
  "Join [] sep = []"
| "Join [x] sep = x"
| "Join (x # y # ys) sep = x @ sep @ Join (y # ys) sep"

text \<open>
  \<^verbatim>\<open>var digitRegex = regexp.MustCompile(`^\d+$`)\<close>: Go's \<^verbatim>\<open>\d\<close> is the ASCII class 0-9, and
  without the multi-line flag \<^verbatim>\<open>^\<close> and \<^verbatim>\<open>$\<close> are the two ends of the text, so the pattern
  matches the non-empty strings of ASCII digits and nothing else.
\<close>

definition isDigit :: "char \<Rightarrow> bool" where
  "isDigit c = (c \<in> set ''0123456789'')"

definition digitRegex_MatchString :: "string \<Rightarrow> bool" where
  "digitRegex_MatchString s = (s \<noteq> [] \<and> list_all isDigit s)"

text \<open>
  \<^verbatim>\<open>strconv.Atoi\<close>. Go's \<^verbatim>\<open>int\<close> has \<^verbatim>\<open>strconv.IntSize\<close> bits, 64 on the 64-bit platforms.
  \<open>decimal s\<close> is the integer a string of digits denotes. Atoi accepts an optional sign
  and then digits; on a value out of the range of \<^verbatim>\<open>int\<close> it returns the nearest bound
  together with the error \<^verbatim>\<open>ErrRange\<close>, and on anything else that is no number it returns
  0 with \<^verbatim>\<open>ErrSyntax\<close>.
\<close>

definition IntSize :: nat where
  "IntSize = 64"

definition maxInt :: int where
  "maxInt = 2 ^ (IntSize - 1) - 1"

definition minInt :: int where
  "minInt = - (2 ^ (IntSize - 1))"

definition digitVal :: "char \<Rightarrow> int" where
  "digitVal c = int (of_char c) - 48"

definition decimal :: "string \<Rightarrow> int" where
  "decimal s = foldl (\<lambda>acc c. 10 * acc + digitVal c) 0 s"

datatype NumError = ErrSyntax | ErrRange

definition Atoi :: "string \<Rightarrow> int \<times> NumError option" where
  "Atoi s =
     (let neg = (take 1 s = ''-'');
          digits = (if take 1 s = ''+'' \<or> take 1 s = ''-'' then drop 1 s else s)
      in if \<not> digitRegex_MatchString digits then (0, Some ErrSyntax)
         else if \<not> neg \<and> maxInt < decimal digits then (maxInt, Some ErrRange)
         else if neg \<and> - minInt < decimal digits then (minInt, Some ErrRange)
         else (if neg then - decimal digits else decimal digits, None))"

text \<open>
  A compiled \<^verbatim>\<open>*regexp.Regexp\<close> is a parameter of the functions below. What they use of
  it is \<^verbatim>\<open>SubexpNames()\<close>, the names of the capture groups with the empty name of the whole
  match at index 0, and \<^verbatim>\<open>FindStringSubmatch(s)\<close>, the text of the match and of each group,
  or the nil slice (here \<open>[]\<close>) when \<open>s\<close> does not match. \<^verbatim>\<open>MatchString(s)\<close> says whether
  \<open>s\<close> matches. \<open>regexp_ok\<close> is what the package guarantees of every compiled pattern.
\<close>

record Regexp =
  SubexpNames :: "string list"
  FindStringSubmatch :: "string \<Rightarrow> string list"

definition MatchString :: "Regexp \<Rightarrow> string \<Rightarrow> bool" where
  "MatchString re s = (FindStringSubmatch re s \<noteq> [])"

definition regexp_ok :: "Regexp \<Rightarrow> bool" where
  "regexp_ok re =
     (SubexpNames re \<noteq> [] \<and> take 1 (SubexpNames re) = [''''] \<and>
      (\<forall>s. FindStringSubmatch re s = [] \<or>
           length (FindStringSubmatch re s) = length (SubexpNames re)))"

section \<open>The lookup tables\<close>

definition MonthLookup :: "string \<rightharpoonup> int" where
  "MonthLookup = map_of
     [(''january'', 1), (''jan'', 1),
      (''february'', 2), (''feb'', 2),
      (''march'', 3), (''mar'', 3),
      (''april'', 4), (''apr'', 4),
      (''may'', 5),
      (''june'', 6), (''jun'', 6),
      (''july'', 7), (''jul'', 7),
      (''august'', 8), (''aug'', 8),
      (''september'', 9), (''sep'', 9),
      (''october'', 10), (''oct'', 10),
      (''november'', 11), (''nov'', 11),
      (''december'', 12), (''dec'', 12)]"

definition DayLookup :: "string \<rightharpoonup> int" where
  "DayLookup = map_of
     [(''monday'', 0), (''mon'', 0),
      (''tuesday'', 1), (''tue'', 1),
      (''wednesday'', 2), (''wed'', 2),
      (''thursday'', 3), (''thu'', 3),
      (''friday'', 4), (''fri'', 4),
      (''saturday'', 5), (''sat'', 5),
      (''sunday'', 6), (''sun'', 6)]"

section \<open>MultipleError\<close>

type_synonym MultipleError = "string list"

definition NewMultipleError :: MultipleError where
  "NewMultipleError = []"

definition MultipleError_Error :: "MultipleError \<Rightarrow> string" where
  "MultipleError_Error m = Join m '' :: ''"

definition AddMessage :: "MultipleError \<Rightarrow> string \<Rightarrow> MultipleError" where
  "AddMessage m s = m @ [s]"

definition IsError :: "MultipleError \<Rightarrow> bool" where
  "IsError m = (0 < length m)"

section \<open>Logfile\<close>

text \<open>
  The two maps of a Logfile are nil (\<open>None\<close>) until PopulateMatchParts makes them. Reading
  a nil map finds no key. The translation maps are only read, so a nil one is the empty
  map. A score is a Go \<^verbatim>\<open>int\<close>, here an \<^typ>\<open>int\<close>: the code stores and compares scores
  and never computes with them, and the one place that makes a score from a number of
  any size is \<open>Atoi\<close>, which keeps it within the range of \<^verbatim>\<open>int\<close>.
\<close>

type_synonym MatchTranslationMap = "string \<rightharpoonup> int"

type_synonym SubmatchTranslationMap = "string \<rightharpoonup> MatchTranslationMap"

record Logfile =
  FileName :: string
  MatchParts :: "(string \<rightharpoonup> int) option"
  StringMatchParts :: "(string \<rightharpoonup> string) option"

datatype panic = IndexOutOfRange | SliceBoundsOutOfRange

text \<open>
  What the two maps of a Logfile hold, the nil map holding nothing.
\<close>

definition scoreMap :: "Logfile \<Rightarrow> (string \<rightharpoonup> int)" where
  "scoreMap l = (case MatchParts l of None \<Rightarrow> Map.empty | Some m \<Rightarrow> m)"

definition rawMap :: "Logfile \<Rightarrow> (string \<rightharpoonup> string)" where
  "rawMap l = (case StringMatchParts l of None \<Rightarrow> Map.empty | Some m \<Rightarrow> m)"

text \<open>
  Lines 119 to 133: the score of one named slot, or the message of the error that the
  loop returns. \<open>Inl\<close> is the error.
\<close>

definition resolveScore ::
  "(string \<Rightarrow> string) \<Rightarrow> string \<Rightarrow> string \<Rightarrow> SubmatchTranslationMap \<Rightarrow> string + int" where
  "resolveScore ToLower name matchValue translation =
     (let lowerValue = ToLower matchValue
      in if name = ''MonthName'' then
           (case MonthLookup lowerValue of
              None \<Rightarrow> Inl (''Unable to locate month name: '' @ matchValue)
            | Some score \<Rightarrow> Inr score)
         else if name = ''DayName'' then
           (case DayLookup lowerValue of
              None \<Rightarrow> Inl (''Unable to locate day name : '' @ matchValue)
            | Some score \<Rightarrow> Inr score)
         else
           (case translation name of
              Some submap \<Rightarrow>
                (case submap matchValue of
                   None \<Rightarrow> Inl (''Unable to locate value: ('' @ matchValue @
                                '') in translation map: '' @ name)
                 | Some score \<Rightarrow> Inr score)
            | None \<Rightarrow>
                if digitRegex_MatchString matchValue then Inr (fst (Atoi matchValue))
                else Inr (- 1)))"

text \<open>
  The loop of lines 109 to 135 over the two maps. The index \<open>i\<close> runs over subexpNames
  and reads \<open>matches[i]\<close>, so the two lists are walked together and a names list longer
  than the matches panics with an index out of range. An error returns at once, with the
  maps as they are at that moment. The result is the two maps and the error (\<open>None\<close> is
  nil).
\<close>

fun populateLoop ::
  "(string \<Rightarrow> string) \<Rightarrow> string list \<Rightarrow> string list \<Rightarrow> SubmatchTranslationMap \<Rightarrow>
   (string \<rightharpoonup> int) \<times> (string \<rightharpoonup> string) \<Rightarrow>
   panic + (((string \<rightharpoonup> int) \<times> (string \<rightharpoonup> string)) \<times> string option)" where
  "populateLoop ToLower [] matches translation (mp, smp) = Inr ((mp, smp), None)"
| "populateLoop ToLower (name # names) [] translation (mp, smp) = Inl IndexOutOfRange"
| "populateLoop ToLower (name # names) (matchValue # matches) translation (mp, smp) =
     (let smp' = smp(name \<mapsto> matchValue)
      in if name = '''' then populateLoop ToLower names matches translation (mp, smp')
         else (case resolveScore ToLower name matchValue translation of
                 Inl msg \<Rightarrow> Inr ((mp, smp'), Some msg)
               | Inr score \<Rightarrow>
                   populateLoop ToLower names matches translation
                     (mp(name \<mapsto> score), smp')))"

text \<open>
  \<^verbatim>\<open>func (l *Logfile) PopulateMatchParts\<close>: the Logfile is changed in place, here it is
  returned with the error. After a panic nothing is returned.
\<close>

definition Logfile_PopulateMatchParts ::
  "(string \<Rightarrow> string) \<Rightarrow> Logfile \<Rightarrow> string list \<Rightarrow> string list \<Rightarrow>
   SubmatchTranslationMap \<Rightarrow> panic + (Logfile \<times> string option)" where
  "Logfile_PopulateMatchParts ToLower l subexpNames matches translation =
     (let mp = scoreMap l;
          smp = rawMap l
      in case populateLoop ToLower subexpNames matches translation (mp, smp) of
           Inl p \<Rightarrow> Inl p
         | Inr ((mp', smp'), err) \<Rightarrow>
             Inr (l\<lparr>MatchParts := Some mp', StringMatchParts := Some smp'\<rparr>, err))"

section \<open>Logfiles\<close>

text \<open>
  \<^verbatim>\<open>type Logfiles []*Logfile\<close>, as the list of the files pointed to; the scan makes a new
  Logfile for each path, so no two entries are the same file.
  \<^verbatim>\<open>func (l Logfiles) PopulateMatchParts\<close> parses each file in turn, collects the messages
  of the errors, and returns the list as the error when it is not empty. The collection is
  returned with the error, each file as its parse left it.
\<close>

fun populateFiles ::
  "(string \<Rightarrow> string) \<Rightarrow> Regexp \<Rightarrow> SubmatchTranslationMap \<Rightarrow> Logfile list \<Rightarrow>
   MultipleError \<Rightarrow> panic + (Logfile list \<times> MultipleError)" where
  "populateFiles ToLower fileMatch translation [] errorlist = Inr ([], errorlist)"
| "populateFiles ToLower fileMatch translation (logfile # rest) errorlist =
     (let matches = FindStringSubmatch fileMatch (FileName logfile)
      in case Logfile_PopulateMatchParts ToLower logfile (SubexpNames fileMatch) matches
                translation of
           Inl p \<Rightarrow> Inl p
         | Inr (logfile', err) \<Rightarrow>
             (case populateFiles ToLower fileMatch translation rest
                     (case err of None \<Rightarrow> errorlist | Some msg \<Rightarrow> AddMessage errorlist msg) of
                Inl p \<Rightarrow> Inl p
              | Inr (rest', errorlist') \<Rightarrow> Inr (logfile' # rest', errorlist')))"

definition Logfiles_PopulateMatchParts ::
  "(string \<Rightarrow> string) \<Rightarrow> Logfile list \<Rightarrow> Regexp \<Rightarrow> SubmatchTranslationMap \<Rightarrow>
   panic + (Logfile list \<times> MultipleError option)" where
  "Logfiles_PopulateMatchParts ToLower l fileMatch translation =
     (case populateFiles ToLower fileMatch translation l NewMultipleError of
        Inl p \<Rightarrow> Inl p
      | Inr (l', errorlist) \<Rightarrow>
          Inr (l', if IsError errorlist then Some errorlist else None))"

section \<open>ByPriority\<close>

record ByPriority =
  Logfiles :: "Logfile list"
  Priority :: "string list"

text \<open>
  \<^verbatim>\<open>first.MatchParts[part]\<close>: a key that is not in the map reads as 0. The two indices of
  Less are indices into the collection; one that is out of range panics.
\<close>

definition scoreOf :: "Logfile \<Rightarrow> string \<Rightarrow> int" where
  "scoreOf l part = (case scoreMap l part of None \<Rightarrow> 0 | Some s \<Rightarrow> s)"

text \<open>
  The loop of Less over the priority. \<^verbatim>\<open>part[:1]\<close> on the empty string is a slice out of
  range, which panics.
\<close>

fun lessLoop :: "Logfile \<Rightarrow> Logfile \<Rightarrow> string list \<Rightarrow> panic + bool" where
  "lessLoop first second [] = Inr False"
| "lessLoop first second (part # rest) =
     (if length part < 1 then Inl SliceBoundsOutOfRange
      else let inverted = (''^'' = take 1 part);
               part' = (if inverted then drop 1 part else part);
               convert = (if inverted then (\<lambda>a. \<not> a) else (\<lambda>a. a))
           in if scoreOf first part' < scoreOf second part' then Inr (convert True)
              else if scoreOf first part' > scoreOf second part' then Inr (convert False)
              else lessLoop first second rest)"

definition ByPriority_Less :: "ByPriority \<Rightarrow> nat \<Rightarrow> nat \<Rightarrow> panic + bool" where
  "ByPriority_Less b i j =
     (if length (Logfiles b) \<le> i \<or> length (Logfiles b) \<le> j then Inl IndexOutOfRange
      else lessLoop (Logfiles b ! i) (Logfiles b ! j) (Priority b))"

section \<open>Scanning and grouping\<close>

text \<open>
  \<^verbatim>\<open>filepath.Walk\<close> calls the function of ScanDirectoryForLogfiles once for each entry
  under the directory, with its path, whether it is a directory, and whether reading it
  failed. The entries in the order of the walk are the parameter here. \<open>scanned p\<close> is
  \<^verbatim>\<open>&Logfile{FileName: path}\<close>, the file with its name and two nil maps.
\<close>

record WalkEntry =
  path :: string
  isDir :: bool
  walkErr :: bool

definition scanned :: "string \<Rightarrow> Logfile" where
  "scanned p = \<lparr>FileName = p, MatchParts = None, StringMatchParts = None\<rparr>"

fun scanLoop :: "WalkEntry list \<Rightarrow> Regexp \<Rightarrow> Logfile list \<Rightarrow> Logfile list" where
  "scanLoop [] fileMatch files = files"
| "scanLoop (e # es) fileMatch files =
     (if walkErr e \<or> isDir e then scanLoop es fileMatch files
      else if MatchString fileMatch (path e)
      then scanLoop es fileMatch (files @ [scanned (path e)])
      else scanLoop es fileMatch files)"

definition ScanDirectoryForLogfiles :: "WalkEntry list \<Rightarrow> Regexp \<Rightarrow> Logfile list" where
  "ScanDirectoryForLogfiles entries fileMatch = scanLoop entries fileMatch []"

text \<open>
  ResolveDifferentiatedName reads \<^verbatim>\<open>l.StringMatchParts[d]\<close> with its \<^verbatim>\<open>ok\<close> for each token
  and appends the value, or the token itself, to \<open>name\<close>.
\<close>

fun resolveLoop :: "Logfile \<Rightarrow> string list \<Rightarrow> string \<Rightarrow> string" where
  "resolveLoop l [] name = name"
| "resolveLoop l (d # ds) name =
     (case rawMap l d of
        Some v \<Rightarrow> resolveLoop l ds (name @ v)
      | None \<Rightarrow> resolveLoop l ds (name @ d))"

definition ResolveDifferentiatedName :: "Logfile \<Rightarrow> string list \<Rightarrow> string" where
  "ResolveDifferentiatedName l differentiator = resolveLoop l differentiator []"

type_synonym MultipleLogstreamFileList = "string \<rightharpoonup> Logfile list"

fun filterLoop ::
  "Logfile list \<Rightarrow> string list \<Rightarrow> MultipleLogstreamFileList \<Rightarrow> MultipleLogstreamFileList" where
  "filterLoop [] differentiator mfs = mfs"
| "filterLoop (logfile # files) differentiator mfs =
     (let name = ResolveDifferentiatedName logfile differentiator;
          mfs' = (case mfs name of None \<Rightarrow> mfs(name \<mapsto> []) | Some _ \<Rightarrow> mfs)
      in filterLoop files differentiator
           (mfs'(name \<mapsto> (case mfs' name of None \<Rightarrow> [] | Some fs \<Rightarrow> fs) @ [logfile])))"

definition FilterMultipleStreamFiles ::
  "Logfile list \<Rightarrow> string list \<Rightarrow> MultipleLogstreamFileList" where
  "FilterMultipleStreamFiles files differentiator = filterLoop files differentiator Map.empty"

section \<open>Definitions for the statements\<close>


text \<open>
  The comparator of section 4.4 of the specification: a key that starts with the marker
  names the key after it and is descending; the first key on which the two scores differ
  decides; with no such key the first file is not less.
\<close>

definition descending :: "string \<Rightarrow> bool" where
  "descending key = (take 1 key = ''^'')"

definition keyName :: "string \<Rightarrow> string" where
  "keyName key = (if descending key then drop 1 key else key)"

definition spec_less :: "Logfile \<Rightarrow> Logfile \<Rightarrow> string list \<Rightarrow> bool" where
  "spec_less a b priority =
     (case find (\<lambda>key. scoreOf a (keyName key) \<noteq> scoreOf b (keyName key)) priority of
        None \<Rightarrow> False
      | Some key \<Rightarrow>
          if descending key then scoreOf b (keyName key) < scoreOf a (keyName key)
          else scoreOf a (keyName key) < scoreOf b (keyName key))"

text \<open>
  The stream identifier of section 4.5: for each token in order, the raw value of the file
  when the token names one of its captures, else the token itself.
\<close>

definition spec_identifier :: "Logfile \<Rightarrow> string list \<Rightarrow> string" where
  "spec_identifier l differentiator =
     concat (map (\<lambda>d. case rawMap l d of Some v \<Rightarrow> v | None \<Rightarrow> d) differentiator)"

text \<open>
  One file of the collection on its own: the file after its parse, and the message of its
  error if it has one.
\<close>

definition parseFile ::
  "(string \<Rightarrow> string) \<Rightarrow> Regexp \<Rightarrow> SubmatchTranslationMap \<Rightarrow> Logfile \<Rightarrow>
   panic + (Logfile \<times> string option)" where
  "parseFile ToLower fileMatch translation logfile =
     Logfile_PopulateMatchParts ToLower logfile (SubexpNames fileMatch)
       (FindStringSubmatch fileMatch (FileName logfile)) translation"

definition parsedFile ::
  "(string \<Rightarrow> string) \<Rightarrow> Regexp \<Rightarrow> SubmatchTranslationMap \<Rightarrow> Logfile \<Rightarrow> Logfile" where
  "parsedFile ToLower fileMatch translation logfile =
     (case parseFile ToLower fileMatch translation logfile of
        Inr (l', err) \<Rightarrow> l'
      | Inl p \<Rightarrow> logfile)"

definition parseMessage ::
  "(string \<Rightarrow> string) \<Rightarrow> Regexp \<Rightarrow> SubmatchTranslationMap \<Rightarrow> Logfile \<Rightarrow> string option" where
  "parseMessage ToLower fileMatch translation logfile =
     (case parseFile ToLower fileMatch translation logfile of
        Inr (l', err) \<Rightarrow> err
      | Inl p \<Rightarrow> None)"

text \<open>
  The compiled pattern \<^verbatim>\<open>^m-(?P<MonthName>May|Foo)$\<close>, for the examples: it has the one
  named group MonthName and matches the two file names m-May and m-Foo.
\<close>

definition monthPattern :: Regexp where
  "monthPattern =
     \<lparr>SubexpNames = ['''', ''MonthName''],
      FindStringSubmatch =
        (\<lambda>s. if s = ''m-May'' then [''m-May'', ''May'']
             else if s = ''m-Foo'' then [''m-Foo'', ''Foo'']
             else [])\<rparr>"

section \<open>The parse of one file\<close>

lemmas go_defs =
  asciiToLower_def toLowerChar_def upperLetters_def lowerLetters_def
  digitRegex_MatchString_def isDigit_def Atoi_def decimal_def digitVal_def
  maxInt_def minInt_def IntSize_def MonthLookup_def DayLookup_def

lemmas parse_defs =
  Logfile_PopulateMatchParts_def resolveScore_def scanned_def scoreMap_def rawMap_def

text \<open>
  Slots that are parsed without an error can be cut off the front of the two lists: the
  loop goes on from the maps they leave.
\<close>

lemma populateLoop_append_ok:
  "length ns = length vs \<Longrightarrow> populateLoop ToLower ns vs tr st = Inr (st', None) \<Longrightarrow>
   populateLoop ToLower (ns @ ns') (vs @ vs') tr st = populateLoop ToLower ns' vs' tr st'"
  by (induction ToLower ns vs tr st rule: populateLoop.induct)
     (auto simp: Let_def split: sum.splits if_splits)

text \<open>
  An error of the loop comes from one slot: the slots before it were parsed without an
  error, and the maps are theirs, with the raw value of the failing slot added.
\<close>

lemma populateLoop_err_split:
  "populateLoop ToLower ns vs tr st = Inr (st', Some e) \<Longrightarrow>
   \<exists>i mp smp. i < length ns \<and> i < length vs \<and> ns ! i \<noteq> '''' \<and>
      resolveScore ToLower (ns ! i) (vs ! i) tr = Inl e \<and>
      populateLoop ToLower (take i ns) (take i vs) tr st = Inr ((mp, smp), None) \<and>
      st' = (mp, smp(ns ! i \<mapsto> vs ! i))"
proof (induction ToLower ns vs tr st rule: populateLoop.induct)
  case (1 ToLower matches translation mp smp)
  then show ?case by simp
next
  case (2 ToLower name names translation mp smp)
  then show ?case by simp
next
  case (3 ToLower name names matchValue matches translation mp smp)
  let ?ns = "name # names" and ?vs = "matchValue # matches"
  show ?case
  proof (cases "name = ''''")
    case True
    from "3.prems" True
    have rec: "populateLoop ToLower names matches translation (mp, smp(name \<mapsto> matchValue)) =
               Inr (st', Some e)"
      by (simp add: Let_def)
    from "3.IH"(1)[OF refl True rec] obtain i mp' smp' where
      i: "i < length names" "i < length matches" "names ! i \<noteq> ''''"
      "resolveScore ToLower (names ! i) (matches ! i) translation = Inl e"
      and pre: "populateLoop ToLower (take i names) (take i matches) translation
         (mp, smp(name \<mapsto> matchValue)) = Inr ((mp', smp'), None)"
      and st: "st' = (mp', smp'(names ! i \<mapsto> matches ! i))"
      by blast
    from i have "Suc i < length ?ns" "Suc i < length ?vs" "?ns ! Suc i \<noteq> ''''"
      "resolveScore ToLower (?ns ! Suc i) (?vs ! Suc i) translation = Inl e"
      by simp_all
    moreover from pre True
    have "populateLoop ToLower (take (Suc i) ?ns) (take (Suc i) ?vs) translation (mp, smp) =
          Inr ((mp', smp'), None)"
      by (simp add: Let_def)
    moreover from st have "st' = (mp', smp'(?ns ! Suc i \<mapsto> ?vs ! Suc i))"
      by simp
    ultimately show ?thesis by blast
  next
    case False
    show ?thesis
    proof (cases "resolveScore ToLower name matchValue translation")
      case (Inl msg)
      with False "3.prems" have "msg = e" "st' = (mp, smp(name \<mapsto> matchValue))"
        by (auto simp: Let_def)
      with False Inl
      have "0 < length ?ns" "0 < length ?vs" "?ns ! 0 \<noteq> ''''"
        "resolveScore ToLower (?ns ! 0) (?vs ! 0) translation = Inl e"
        "populateLoop ToLower (take 0 ?ns) (take 0 ?vs) translation (mp, smp) = Inr ((mp, smp), None)"
        "st' = (mp, smp(?ns ! 0 \<mapsto> ?vs ! 0))"
        by simp_all
      then show ?thesis by blast
    next
      case (Inr score)
      from "3.prems" False Inr
      have rec: "populateLoop ToLower names matches translation
                   (mp(name \<mapsto> score), smp(name \<mapsto> matchValue)) = Inr (st', Some e)"
        by (simp add: Let_def)
      from "3.IH"(2)[OF refl False Inr rec] obtain i mp' smp' where
        i: "i < length names" "i < length matches" "names ! i \<noteq> ''''"
        "resolveScore ToLower (names ! i) (matches ! i) translation = Inl e"
        and pre: "populateLoop ToLower (take i names) (take i matches) translation
           (mp(name \<mapsto> score), smp(name \<mapsto> matchValue)) = Inr ((mp', smp'), None)"
        and st: "st' = (mp', smp'(names ! i \<mapsto> matches ! i))"
        by blast
      from i have "Suc i < length ?ns" "Suc i < length ?vs" "?ns ! Suc i \<noteq> ''''"
        "resolveScore ToLower (?ns ! Suc i) (?vs ! Suc i) translation = Inl e"
        by simp_all
      moreover from pre False Inr
      have "populateLoop ToLower (take (Suc i) ?ns) (take (Suc i) ?vs) translation (mp, smp) =
            Inr ((mp', smp'), None)"
        by (simp add: Let_def)
      moreover from st have "st' = (mp', smp'(?ns ! Suc i \<mapsto> ?vs ! Suc i))"
        by simp
      ultimately show ?thesis by blast
    qed
  qed
qed

text \<open>
  A file that PopulateMatchParts returns has its two maps made, and keeps its name.
\<close>

lemma populate_result_maps:
  "Logfile_PopulateMatchParts ToLower l ns vs tr = Inr (l', err) \<Longrightarrow>
   MatchParts l' = Some (scoreMap l') \<and> StringMatchParts l' = Some (rawMap l') \<and>
   FileName l' = FileName l"
  by (auto simp: Logfile_PopulateMatchParts_def scoreMap_def rawMap_def Let_def
           split: sum.splits)

lemma populate_append_ok:
  assumes "length ns = length vs"
    and "Logfile_PopulateMatchParts ToLower l ns vs tr = Inr (l1, None)"
  shows "Logfile_PopulateMatchParts ToLower l (ns @ ns') (vs @ vs') tr =
         Logfile_PopulateMatchParts ToLower l1 ns' vs' tr"
proof -
  from assms(2) obtain mp smp where
    loop: "populateLoop ToLower ns vs tr (scoreMap l, rawMap l) = Inr ((mp, smp), None)"
    and l1: "l1 = l\<lparr>MatchParts := Some mp, StringMatchParts := Some smp\<rparr>"
    by (auto simp: Logfile_PopulateMatchParts_def Let_def split: sum.splits)
  from l1 have maps: "scoreMap l1 = mp" "rawMap l1 = smp"
    by (simp_all add: scoreMap_def rawMap_def)
  from populateLoop_append_ok[OF assms(1) loop]
  have "populateLoop ToLower (ns @ ns') (vs @ vs') tr (scoreMap l, rawMap l) =
        populateLoop ToLower ns' vs' tr (mp, smp)" .
  with maps l1 show ?thesis
    by (simp add: Logfile_PopulateMatchParts_def Let_def split: sum.splits)
qed

text \<open>
  The first slot of a parse, when it has a name.
\<close>

lemma populate_cons_named:
  assumes "n \<noteq> ''''"
  shows "Logfile_PopulateMatchParts ToLower l (n # ns') (v # vs') tr =
     (case resolveScore ToLower n v tr of
        Inl msg \<Rightarrow>
          Inr (l\<lparr>MatchParts := Some (scoreMap l),
                  StringMatchParts := Some ((rawMap l)(n \<mapsto> v))\<rparr>, Some msg)
      | Inr s \<Rightarrow>
          Logfile_PopulateMatchParts ToLower
            (l\<lparr>MatchParts := Some ((scoreMap l)(n \<mapsto> s)),
               StringMatchParts := Some ((rawMap l)(n \<mapsto> v))\<rparr>) ns' vs' tr)"
  using assms
  by (simp add: Logfile_PopulateMatchParts_def Let_def scoreMap_def rawMap_def
           split: sum.splits)

lemma populate_nil:
  "MatchParts l = Some (scoreMap l) \<Longrightarrow> StringMatchParts l = Some (rawMap l) \<Longrightarrow>
   Logfile_PopulateMatchParts ToLower l [] vs tr = Inr (l, None)"
  by (simp add: Logfile_PopulateMatchParts_def)

text \<open>
  What one more named slot does to a file whose earlier slots were parsed without an
  error.
\<close>

lemma populate_snoc_named:
  assumes "length ns = length vs"
    and "Logfile_PopulateMatchParts ToLower l ns vs tr = Inr (l1, None)"
    and "n \<noteq> ''''"
  shows "Logfile_PopulateMatchParts ToLower l (ns @ n # ns') (vs @ v # vs') tr =
     (case resolveScore ToLower n v tr of
        Inl msg \<Rightarrow> Inr (l1\<lparr>StringMatchParts := Some ((rawMap l1)(n \<mapsto> v))\<rparr>, Some msg)
      | Inr s \<Rightarrow>
          Logfile_PopulateMatchParts ToLower
            (l1\<lparr>MatchParts := Some ((scoreMap l1)(n \<mapsto> s)),
                StringMatchParts := Some ((rawMap l1)(n \<mapsto> v))\<rparr>) ns' vs' tr)"
proof -
  have "Logfile_PopulateMatchParts ToLower l (ns @ n # ns') (vs @ v # vs') tr =
        Logfile_PopulateMatchParts ToLower l1 (n # ns') (v # vs') tr"
    using assms(1,2) by (rule populate_append_ok)
  moreover have "l1\<lparr>MatchParts := Some (scoreMap l1),
        StringMatchParts := Some ((rawMap l1)(n \<mapsto> v))\<rparr> =
      l1\<lparr>StringMatchParts := Some ((rawMap l1)(n \<mapsto> v))\<rparr>"
    using populate_result_maps[OF assms(2)] by simp
  ultimately show ?thesis
    using assms(3) by (cases "resolveScore ToLower n v tr") (simp_all add: populate_cons_named)
qed

text \<open>
  Claim C1, as the code has it. The claim says that a file whose parse returned an error
  carries no score data, as if no slot had been processed. The code changes the two maps
  of the file in place and returns at the failing slot without undoing anything: when
  PopulateMatchParts returns an error, the error is that of one named slot \<open>i\<close>, and the
  file is the one that the parse of the slots before \<open>i\<close> leaves (their raw values, and
  the scores of those with a name), with the raw value of slot \<open>i\<close> stored as well.
\<close>

theorem PopulateMatchParts_error_keeps_earlier_slots:
  assumes "Logfile_PopulateMatchParts ToLower l names matches tr = Inr (l', Some e)"
  shows "\<exists>i l1. i < length names \<and> i < length matches \<and> names ! i \<noteq> '''' \<and>
     resolveScore ToLower (names ! i) (matches ! i) tr = Inl e \<and>
     Logfile_PopulateMatchParts ToLower l (take i names) (take i matches) tr = Inr (l1, None) \<and>
     l' = l1\<lparr>StringMatchParts := Some ((rawMap l1)(names ! i \<mapsto> matches ! i))\<rparr>"
proof -
  from assms obtain mp' smp' where
    loop: "populateLoop ToLower names matches tr (scoreMap l, rawMap l) = Inr ((mp', smp'), Some e)"
    and l': "l' = l\<lparr>MatchParts := Some mp', StringMatchParts := Some smp'\<rparr>"
    by (auto simp: Logfile_PopulateMatchParts_def Let_def split: sum.splits)
  from populateLoop_err_split[OF loop] obtain i mp smp where
    i: "i < length names" "i < length matches" "names ! i \<noteq> ''''"
       "resolveScore ToLower (names ! i) (matches ! i) tr = Inl e"
    and pre: "populateLoop ToLower (take i names) (take i matches) tr (scoreMap l, rawMap l) =
              Inr ((mp, smp), None)"
    and st: "(mp', smp') = (mp, smp(names ! i \<mapsto> matches ! i))"
    by blast
  let ?l1 = "l\<lparr>MatchParts := Some mp, StringMatchParts := Some smp\<rparr>"
  from pre
  have "Logfile_PopulateMatchParts ToLower l (take i names) (take i matches) tr = Inr (?l1, None)"
    by (simp add: Logfile_PopulateMatchParts_def Let_def)
  moreover from l' st
  have "l' = ?l1\<lparr>StringMatchParts := Some ((rawMap ?l1)(names ! i \<mapsto> matches ! i))\<rparr>"
    by (simp add: rawMap_def)
  ultimately show ?thesis using i by blast
qed

text \<open>
  The theorem at the file 2013/Foo, with the pattern's slots: the whole match, Year and
  MonthName. Foo is no month, and the file keeps the score of Year.
\<close>

theorem PopulateMatchParts_error_keeps_earlier_slots_witness:
  "Logfile_PopulateMatchParts asciiToLower (scanned ''2013/Foo'') ['''', ''Year'', ''MonthName'']
     [''2013/Foo'', ''2013'', ''Foo''] Map.empty =
   Inr (\<lparr>FileName = ''2013/Foo'', MatchParts = Some [''Year'' \<mapsto> 2013],
          StringMatchParts =
            Some ['''' \<mapsto> ''2013/Foo'', ''Year'' \<mapsto> ''2013'', ''MonthName'' \<mapsto> ''Foo'']\<rparr>,
        Some ''Unable to locate month name: Foo'') \<and>
   (\<exists>i l1. i < length ['''', ''Year'', ''MonthName''] \<and>
      i < length [''2013/Foo'', ''2013'', ''Foo''] \<and>
      ['''', ''Year'', ''MonthName''] ! i \<noteq> '''' \<and>
      resolveScore asciiToLower (['''', ''Year'', ''MonthName''] ! i) ([''2013/Foo'', ''2013'', ''Foo''] ! i)
        Map.empty = Inl ''Unable to locate month name: Foo'' \<and>
      Logfile_PopulateMatchParts asciiToLower (scanned ''2013/Foo'') (take i ['''', ''Year'', ''MonthName''])
        (take i [''2013/Foo'', ''2013'', ''Foo'']) Map.empty = Inr (l1, None) \<and>
      \<lparr>FileName = ''2013/Foo'', MatchParts = Some [''Year'' \<mapsto> 2013],
          StringMatchParts =
            Some ['''' \<mapsto> ''2013/Foo'', ''Year'' \<mapsto> ''2013'', ''MonthName'' \<mapsto> ''Foo'']\<rparr> =
      l1\<lparr>StringMatchParts := Some ((rawMap l1)(['''', ''Year'', ''MonthName''] ! i \<mapsto>
            [''2013/Foo'', ''2013'', ''Foo''] ! i))\<rparr>)"
proof -
  have h: "Logfile_PopulateMatchParts asciiToLower (scanned ''2013/Foo'') ['''', ''Year'', ''MonthName'']
     [''2013/Foo'', ''2013'', ''Foo''] Map.empty =
   Inr (\<lparr>FileName = ''2013/Foo'', MatchParts = Some [''Year'' \<mapsto> 2013],
          StringMatchParts =
            Some ['''' \<mapsto> ''2013/Foo'', ''Year'' \<mapsto> ''2013'', ''MonthName'' \<mapsto> ''Foo'']\<rparr>,
        Some ''Unable to locate month name: Foo'')"
    by (simp add: parse_defs go_defs)
  from h PopulateMatchParts_error_keeps_earlier_slots[OF h] show ?thesis by simp
qed

text \<open>
  Claim C1 as it is written fails at that file: the parse returns an error, and the score
  map of the file holds the score 2013 of Year, a slot processed before the failing one.
\<close>

theorem PopulateMatchParts_error_not_atomic:
  "Logfile_PopulateMatchParts asciiToLower (scanned ''2013/Foo'') ['''', ''Year'', ''MonthName'']
     [''2013/Foo'', ''2013'', ''Foo''] Map.empty =
   Inr (\<lparr>FileName = ''2013/Foo'', MatchParts = Some [''Year'' \<mapsto> 2013],
          StringMatchParts =
            Some ['''' \<mapsto> ''2013/Foo'', ''Year'' \<mapsto> ''2013'', ''MonthName'' \<mapsto> ''Foo'']\<rparr>,
        Some ''Unable to locate month name: Foo'') \<and>
   scoreMap \<lparr>FileName = ''2013/Foo'', MatchParts = Some [''Year'' \<mapsto> 2013],
          StringMatchParts =
            Some ['''' \<mapsto> ''2013/Foo'', ''Year'' \<mapsto> ''2013'', ''MonthName'' \<mapsto> ''Foo'']\<rparr>
     ''Year'' = Some 2013 \<and>
   scoreMap (scanned ''2013/Foo'') ''Year'' = None"
  by (simp add: parse_defs go_defs)

text \<open>
  Claim C2, as the code has it. The claim says that the slots after a failing one are
  still processed. The code returns from inside the loop: when the slots before slot
  \<open>i\<close> are parsed without an error and the lookup of slot \<open>i\<close> fails, the parse returns
  that error and the file as it is after the raw value of slot \<open>i\<close> is stored, whatever
  slots \<open>ns'\<close> and values \<open>vs'\<close> come after it; none of them is read.
\<close>

theorem PopulateMatchParts_stops_at_first_failure:
  assumes "length ns = length vs"
    and "Logfile_PopulateMatchParts ToLower l ns vs tr = Inr (l1, None)"
    and "n \<noteq> ''''"
    and "resolveScore ToLower n v tr = Inl msg"
  shows "Logfile_PopulateMatchParts ToLower l (ns @ n # ns') (vs @ v # vs') tr =
         Inr (l1\<lparr>StringMatchParts := Some ((rawMap l1)(n \<mapsto> v))\<rparr>, Some msg)"
  using populate_snoc_named[OF assms(1,2,3), where v = v and ns' = ns' and vs' = vs'] assms(4)
  by simp

text \<open>
  The theorem at the file Foo/5 with the slots MonthName and Day after the whole match.
\<close>

theorem PopulateMatchParts_stops_at_first_failure_witness:
  "length [''''] = length [''Foo/5''] \<and>
   Logfile_PopulateMatchParts asciiToLower (scanned ''Foo/5'') [''''] [''Foo/5''] Map.empty =
     Inr (\<lparr>FileName = ''Foo/5'', MatchParts = Some Map.empty,
            StringMatchParts = Some ['''' \<mapsto> ''Foo/5'']\<rparr>, None) \<and>
   ''MonthName'' \<noteq> '''' \<and>
   resolveScore asciiToLower ''MonthName'' ''Foo'' Map.empty = Inl ''Unable to locate month name: Foo'' \<and>
   Logfile_PopulateMatchParts asciiToLower (scanned ''Foo/5'') ([''''] @ ''MonthName'' # [''Day''])
     ([''Foo/5''] @ ''Foo'' # [''5'']) Map.empty =
   Inr (\<lparr>FileName = ''Foo/5'', MatchParts = Some Map.empty,
          StringMatchParts = Some ['''' \<mapsto> ''Foo/5'', ''MonthName'' \<mapsto> ''Foo'']\<rparr>,
        Some ''Unable to locate month name: Foo'')"
proof -
  have h1: "length [''''] = length [''Foo/5'']" by simp
  have h2: "Logfile_PopulateMatchParts asciiToLower (scanned ''Foo/5'') [''''] [''Foo/5''] Map.empty =
     Inr (\<lparr>FileName = ''Foo/5'', MatchParts = Some Map.empty,
            StringMatchParts = Some ['''' \<mapsto> ''Foo/5'']\<rparr>, None)"
    by (simp add: parse_defs)
  have h3: "''MonthName'' \<noteq> ''''" by simp
  have h4: "resolveScore asciiToLower ''MonthName'' ''Foo'' Map.empty =
            Inl ''Unable to locate month name: Foo''"
    by (simp add: resolveScore_def go_defs)
  from PopulateMatchParts_stops_at_first_failure[OF h1 h2 h3 h4, of "[''Day'']" "[''5'']"]
    h2 h4
  show ?thesis by (simp add: rawMap_def)
qed

text \<open>
  Claim C2 as it is written fails at that file: slot 1 (MonthName) fails, and slot 2
  (Day, with the value 5) is not processed: the file has no raw value and no score for
  Day.
\<close>

theorem PopulateMatchParts_later_slot_not_processed:
  "Logfile_PopulateMatchParts asciiToLower (scanned ''Foo/5'') ['''', ''MonthName'', ''Day'']
     [''Foo/5'', ''Foo'', ''5''] Map.empty =
   Inr (\<lparr>FileName = ''Foo/5'', MatchParts = Some Map.empty,
          StringMatchParts = Some ['''' \<mapsto> ''Foo/5'', ''MonthName'' \<mapsto> ''Foo'']\<rparr>,
        Some ''Unable to locate month name: Foo'') \<and>
   rawMap \<lparr>FileName = ''Foo/5'', MatchParts = Some Map.empty,
          StringMatchParts = Some ['''' \<mapsto> ''Foo/5'', ''MonthName'' \<mapsto> ''Foo'']\<rparr>
     ''Day'' = None \<and>
   scoreMap \<lparr>FileName = ''Foo/5'', MatchParts = Some Map.empty,
          StringMatchParts = Some ['''' \<mapsto> ''Foo/5'', ''MonthName'' \<mapsto> ''Foo'']\<rparr>
     ''Day'' = None"
  by (simp add: parse_defs go_defs)

section \<open>The score of a slot\<close>

lemma digit_not_sign: "isDigit c \<Longrightarrow> c \<noteq> CHR ''-'' \<and> c \<noteq> CHR ''+''"
  by (auto simp: isDigit_def)

text \<open>
  On a string that digitRegex matches, Atoi returns the number it denotes, or the largest
  \<^verbatim>\<open>int\<close> with a range error when the number is larger.
\<close>

lemma Atoi_digits:
  assumes "digitRegex_MatchString v"
  shows "Atoi v = (if decimal v \<le> maxInt then (decimal v, None) else (maxInt, Some ErrRange))"
proof -
  from assms obtain c cs where v: "v = c # cs" and c: "isDigit c"
    by (cases v) (auto simp: digitRegex_MatchString_def)
  from c have "take 1 v \<noteq> ''-''" "take 1 v \<noteq> ''+''"
    using digit_not_sign[of c] by (simp_all add: v)
  with assms show ?thesis
    by (simp add: Atoi_def Let_def)
qed

lemma decimal_leading_zeros: "decimal (replicate k (CHR ''0'') @ v) = decimal v"
proof (induction k)
  case 0
  then show ?case by simp
next
  case (Suc k)
  have "decimal (CHR ''0'' # s) = decimal s" for s
    by (simp add: decimal_def digitVal_def)
  with Suc show ?case by simp
qed

lemma populate_snoc_last:
  assumes "length ns = length vs"
    and "Logfile_PopulateMatchParts ToLower l ns vs tr = Inr (l1, None)"
    and "n \<noteq> ''''"
  shows "Logfile_PopulateMatchParts ToLower l (ns @ [n]) (vs @ [v]) tr =
     (case resolveScore ToLower n v tr of
        Inl msg \<Rightarrow> Inr (l1\<lparr>StringMatchParts := Some ((rawMap l1)(n \<mapsto> v))\<rparr>, Some msg)
      | Inr s \<Rightarrow>
          Inr (l1\<lparr>MatchParts := Some ((scoreMap l1)(n \<mapsto> s)),
                StringMatchParts := Some ((rawMap l1)(n \<mapsto> v))\<rparr>, None))"
  using populate_snoc_named[OF assms, where v = v and ns' = "[]" and vs' = "[]"]
  by (cases "resolveScore ToLower n v tr") (simp_all add: populate_nil scoreMap_def rawMap_def)

text \<open>
  Claim C3, as the code has it. For a named slot (name \<open>n\<close>, value \<open>v\<close>) that follows
  slots parsed without an error, \<open>stored s\<close> is the parse that stores the raw value and
  the score \<open>s\<close> and goes on without an error, and \<open>failed msg\<close> the parse that stores the
  raw value only and returns the error. The order is the one of the claim: MonthName and
  DayName use the calendar tables alone, at the token as strings.ToLower returns it and
  whatever the translation map holds; then a sub-table of the translation map for \<open>n\<close>;
  then the digits; then -1 without an error. The score of a string of digits is the
  number it denotes only up to the largest \<^verbatim>\<open>int\<close>, which is what a larger number scores.
\<close>

theorem PopulateMatchParts_score_precedence:
  assumes "length ns = length vs"
    and "Logfile_PopulateMatchParts ToLower l ns vs tr = Inr (l1, None)"
    and "n \<noteq> ''''"
  shows "(let stored = (\<lambda>s. Inr (l1\<lparr>MatchParts := Some ((scoreMap l1)(n \<mapsto> s)),
                              StringMatchParts := Some ((rawMap l1)(n \<mapsto> v))\<rparr>, None));
             failed = (\<lambda>msg. Inr (l1\<lparr>StringMatchParts := Some ((rawMap l1)(n \<mapsto> v))\<rparr>,
                              Some msg))
         in Logfile_PopulateMatchParts ToLower l (ns @ [n]) (vs @ [v]) tr =
            (if n = ''MonthName'' then
               (case MonthLookup (ToLower v) of
                  Some s \<Rightarrow> stored s
                | None \<Rightarrow> failed (''Unable to locate month name: '' @ v))
             else if n = ''DayName'' then
               (case DayLookup (ToLower v) of
                  Some s \<Rightarrow> stored s
                | None \<Rightarrow> failed (''Unable to locate day name : '' @ v))
             else
               (case tr n of
                  Some sub \<Rightarrow>
                    (case sub v of
                       Some s \<Rightarrow> stored s
                     | None \<Rightarrow> failed (''Unable to locate value: ('' @ v @
                                         '') in translation map: '' @ n))
                | None \<Rightarrow>
                    if digitRegex_MatchString v
                    then stored (if decimal v \<le> maxInt then decimal v else maxInt)
                    else stored (- 1))))"
  unfolding Let_def populate_snoc_last[OF assms]
  by (simp add: resolveScore_def Atoi_digits split: option.splits)

text \<open>
  The theorem at the slot MonthName of the file 2013/August, where a translation map has
  a sub-table for MonthName that gives August another score: the calendar table wins.
\<close>

theorem PopulateMatchParts_score_precedence_witness:
  "length [''''] = length [''2013/August''] \<and>
   Logfile_PopulateMatchParts asciiToLower (scanned ''2013/August'') [''''] [''2013/August'']
     [''MonthName'' \<mapsto> [''August'' \<mapsto> 100]] =
     Inr (\<lparr>FileName = ''2013/August'', MatchParts = Some Map.empty,
            StringMatchParts = Some ['''' \<mapsto> ''2013/August'']\<rparr>, None) \<and>
   ''MonthName'' \<noteq> '''' \<and>
   Logfile_PopulateMatchParts asciiToLower (scanned ''2013/August'') ([''''] @ [''MonthName''])
     ([''2013/August''] @ [''August'']) [''MonthName'' \<mapsto> [''August'' \<mapsto> 100]] =
     Inr (\<lparr>FileName = ''2013/August'', MatchParts = Some [''MonthName'' \<mapsto> 8],
            StringMatchParts = Some ['''' \<mapsto> ''2013/August'', ''MonthName'' \<mapsto> ''August'']\<rparr>,
          None)"
proof -
  have h1: "length [''''] = length [''2013/August'']" by simp
  have h2: "Logfile_PopulateMatchParts asciiToLower (scanned ''2013/August'') [''''] [''2013/August'']
     [''MonthName'' \<mapsto> [''August'' \<mapsto> 100]] =
     Inr (\<lparr>FileName = ''2013/August'', MatchParts = Some Map.empty,
            StringMatchParts = Some ['''' \<mapsto> ''2013/August'']\<rparr>, None)"
    by (simp add: parse_defs)
  have h3: "''MonthName'' \<noteq> ''''" by simp
  from PopulateMatchParts_score_precedence[OF h1 h2 h3, where v = "''August''"] h2
  show ?thesis
    by (simp add: Let_def scoreMap_def rawMap_def go_defs)
qed

text \<open>
  Claim C3 as it is written fails on a string of digits that denotes more than the largest
  \<^verbatim>\<open>int\<close>: the slot Seq with the value 99999999999999999999 scores 9223372036854775807,
  which is not its numeric value.
\<close>

theorem PopulateMatchParts_digits_beyond_int:
  "digitRegex_MatchString ''99999999999999999999'' \<and>
   decimal ''99999999999999999999'' = 99999999999999999999 \<and>
   Logfile_PopulateMatchParts asciiToLower (scanned ''x-99999999999999999999'') ['''', ''Seq'']
     [''x-99999999999999999999'', ''99999999999999999999''] Map.empty =
   Inr (\<lparr>FileName = ''x-99999999999999999999'',
          MatchParts = Some [''Seq'' \<mapsto> 9223372036854775807],
          StringMatchParts =
            Some ['''' \<mapsto> ''x-99999999999999999999'', ''Seq'' \<mapsto> ''99999999999999999999'']\<rparr>,
        None)"
  by (simp add: parse_defs go_defs)

text \<open>
  Claim C5, as the code has it. A named slot with no calendar and no translation handling
  whose value is a string of digits stores the number the digits denote, leading zeros
  included, when that number is at most the largest \<^verbatim>\<open>int\<close>, and the largest \<^verbatim>\<open>int\<close>
  otherwise: the error of Atoi is dropped and the bound it returns is stored.
\<close>

theorem PopulateMatchParts_digit_score:
  assumes "length ns = length vs"
    and "Logfile_PopulateMatchParts ToLower l ns vs tr = Inr (l1, None)"
    and "n \<noteq> ''''" and "n \<noteq> ''MonthName''" and "n \<noteq> ''DayName''"
    and "tr n = None"
    and "digitRegex_MatchString v"
  shows "Logfile_PopulateMatchParts ToLower l (ns @ [n]) (vs @ [v]) tr =
           Inr (l1\<lparr>MatchParts :=
                      Some ((scoreMap l1)(n \<mapsto> (if decimal v \<le> maxInt then decimal v else maxInt))),
                    StringMatchParts := Some ((rawMap l1)(n \<mapsto> v))\<rparr>, None) \<and>
         decimal (replicate k (CHR ''0'') @ v) = decimal v"
  unfolding populate_snoc_last[OF assms(1,2,3)]
  using assms(4-)
  by (simp add: resolveScore_def Atoi_digits decimal_leading_zeros)

text \<open>
  The theorem at the slot Day with the value 007, which scores 7.
\<close>

theorem PopulateMatchParts_digit_score_witness:
  "length [''''] = length [''d007''] \<and>
   Logfile_PopulateMatchParts asciiToLower (scanned ''d007'') [''''] [''d007''] Map.empty =
     Inr (\<lparr>FileName = ''d007'', MatchParts = Some Map.empty,
            StringMatchParts = Some ['''' \<mapsto> ''d007'']\<rparr>, None) \<and>
   ''Day'' \<noteq> '''' \<and> ''Day'' \<noteq> ''MonthName'' \<and> ''Day'' \<noteq> ''DayName'' \<and>
   (Map.empty :: SubmatchTranslationMap) ''Day'' = None \<and>
   digitRegex_MatchString ''007'' \<and>
   Logfile_PopulateMatchParts asciiToLower (scanned ''d007'') ([''''] @ [''Day'']) ([''d007''] @ [''007''])
     Map.empty =
     Inr (\<lparr>FileName = ''d007'', MatchParts = Some [''Day'' \<mapsto> 7],
            StringMatchParts = Some ['''' \<mapsto> ''d007'', ''Day'' \<mapsto> ''007'']\<rparr>, None) \<and>
   decimal (replicate 2 (CHR ''0'') @ ''007'') = decimal ''007''"
proof -
  have h1: "length [''''] = length [''d007'']" by simp
  have h2: "Logfile_PopulateMatchParts asciiToLower (scanned ''d007'') [''''] [''d007''] Map.empty =
     Inr (\<lparr>FileName = ''d007'', MatchParts = Some Map.empty,
            StringMatchParts = Some ['''' \<mapsto> ''d007'']\<rparr>, None)"
    by (simp add: parse_defs)
  have h3: "''Day'' \<noteq> ''''" and h4: "''Day'' \<noteq> ''MonthName''" and h5: "''Day'' \<noteq> ''DayName''"
    by simp_all
  have h6: "(Map.empty :: SubmatchTranslationMap) ''Day'' = None" by simp
  have h7: "digitRegex_MatchString ''007''"
    by (simp add: digitRegex_MatchString_def isDigit_def)
  have d: "decimal ''007'' = 7" "decimal ''007'' \<le> maxInt"
    by (simp_all add: go_defs)
  from PopulateMatchParts_digit_score[OF h1 h2 h3 h4 h5 h6 h7, where k = 2] h2 h7 d
  show ?thesis
    by (simp add: scoreMap_def rawMap_def)
qed

text \<open>
  Claim C5 as it is written fails on a value that exceeds the machine word: the slot Day
  with the value 9223372036854775808 (2 to the power 63) stores 9223372036854775807.
\<close>

theorem PopulateMatchParts_digit_score_saturates:
  "digitRegex_MatchString ''9223372036854775808'' \<and>
   decimal ''9223372036854775808'' = 9223372036854775808 \<and>
   Logfile_PopulateMatchParts asciiToLower (scanned ''d'') ['''', ''Day''] [''d'', ''9223372036854775808'']
     Map.empty =
   Inr (\<lparr>FileName = ''d'', MatchParts = Some [''Day'' \<mapsto> 9223372036854775807],
          StringMatchParts = Some ['''' \<mapsto> ''d'', ''Day'' \<mapsto> ''9223372036854775808'']\<rparr>,
        None)"
  by (simp add: parse_defs go_defs)

section \<open>Letter case\<close>

















section \<open>The comparator\<close>

text \<open>
  The loop of Less on a key that is not empty: the key decides when the two scores under
  its name differ, and the loop goes on when they are equal.
\<close>

lemma lessLoop_key:
  assumes "part \<noteq> ''''"
  shows "lessLoop first second (part # rest) =
     (if scoreOf first (keyName part) = scoreOf second (keyName part)
      then lessLoop first second rest
      else Inr (if descending part
                then scoreOf second (keyName part) < scoreOf first (keyName part)
                else scoreOf first (keyName part) < scoreOf second (keyName part)))"
proof -
  from assms have "\<not> length part < 1"
    by (cases part) simp_all
  moreover have "(''^'' = take 1 part) = descending part"
    by (auto simp: descending_def)
  ultimately show ?thesis
    by (auto simp: Let_def keyName_def)
qed

lemma lessLoop_empty_key: "lessLoop first second ('''' # rest) = Inl SliceBoundsOutOfRange"
  by simp

lemma spec_less_Cons:
  "spec_less a b (key # rest) =
     (if scoreOf a (keyName key) = scoreOf b (keyName key) then spec_less a b rest
      else if descending key then scoreOf b (keyName key) < scoreOf a (keyName key)
      else scoreOf a (keyName key) < scoreOf b (keyName key))"
  by (simp add: spec_less_def)

lemma lessLoop_spec:
  "\<forall>part \<in> set priority. part \<noteq> '''' \<Longrightarrow>
   lessLoop first second priority = Inr (spec_less first second priority)"
proof (induction priority)
  case Nil
  then show ?case by (simp add: spec_less_def)
next
  case (Cons part rest)
  then have part: "part \<noteq> ''''" and "\<forall>p \<in> set rest. p \<noteq> ''''"
    by simp_all
  with Cons.IH have "lessLoop first second rest = Inr (spec_less first second rest)"
    by simp
  then show ?case
    unfolding lessLoop_key[OF part] spec_less_Cons by simp
qed

lemma lessLoop_returns:
  "lessLoop first second priority = Inr r \<Longrightarrow> r = spec_less first second priority"
proof (induction priority)
  case Nil
  then show ?case by (simp add: spec_less_def)
next
  case (Cons part rest)
  show ?case
  proof (cases "part = ''''")
    case True
    with Cons.prems show ?thesis by simp
  next
    case False
    from Cons.prems have
      "(if scoreOf first (keyName part) = scoreOf second (keyName part)
        then lessLoop first second rest
        else Inr (if descending part
                  then scoreOf second (keyName part) < scoreOf first (keyName part)
                  else scoreOf first (keyName part) < scoreOf second (keyName part))) = Inr r"
      unfolding lessLoop_key[OF False] .
    with Cons.IH show ?thesis
      unfolding spec_less_Cons by (auto split: if_splits)
  qed
qed

text \<open>
  The loop up to the first empty key: it panics there when every key before it ties, and
  returns what the keys before it decide otherwise.
\<close>

lemma lessLoop_first_empty_key:
  "\<forall>part \<in> set before. part \<noteq> '''' \<Longrightarrow>
   lessLoop first second (before @ '''' # rest) =
     (if \<forall>part \<in> set before. scoreOf first (keyName part) = scoreOf second (keyName part)
      then Inl SliceBoundsOutOfRange
      else Inr (spec_less first second before))"
proof (induction before)
  case Nil
  then show ?case by simp
next
  case (Cons part before)
  then have part: "part \<noteq> ''''" and rest: "\<forall>p \<in> set before. p \<noteq> ''''"
    by simp_all
  have "lessLoop first second ((part # before) @ '''' # rest) =
        lessLoop first second (part # (before @ '''' # rest))"
    by simp
  also have "\<dots> =
     (if scoreOf first (keyName part) = scoreOf second (keyName part)
      then lessLoop first second (before @ '''' # rest)
      else Inr (if descending part
                then scoreOf second (keyName part) < scoreOf first (keyName part)
                else scoreOf first (keyName part) < scoreOf second (keyName part)))"
    using part by (rule lessLoop_key)
  finally show ?case
    using Cons.IH[OF rest] by (simp add: spec_less_Cons)
qed

lemma spec_less_all_tie:
  "\<forall>key \<in> set priority. scoreOf a (keyName key) = scoreOf b (keyName key) \<Longrightarrow>
   \<not> spec_less a b priority"
  by (induction priority) (simp_all add: spec_less_Cons, simp add: spec_less_def)

lemmas less_defs =
  ByPriority_Less_def spec_less_def scoreOf_def scoreMap_def keyName_def descending_def

text \<open>
  Claim C6, as the code has it. The claim speaks of every priority list; Less slices the
  first byte off every key it reaches, which panics on an empty key. For two files of the
  collection and a priority list whose keys are all non-empty, Less returns what the
  comparator of the specification says: the keys are walked in order, a key that starts
  with the marker is stripped and inverted, and the first key on which the scores differ
  decides. Whenever Less returns, on any priority list, it returns that. A key that is
  not in the score map of a file reads as 0, and when every key ties the first file is
  not less. In the example of the claim Less(A, B) is true.
\<close>

theorem ByPriority_Less_semantics:
  "(i < length fs \<and> j < length fs \<and> (\<forall>key \<in> set priority. key \<noteq> '''') \<longrightarrow>
      ByPriority_Less \<lparr>Logfiles = fs, Priority = priority\<rparr> i j =
        Inr (spec_less (fs ! i) (fs ! j) priority)) \<and>
   (ByPriority_Less \<lparr>Logfiles = fs, Priority = priority\<rparr> i j = Inr r \<longrightarrow>
      r = spec_less (fs ! i) (fs ! j) priority) \<and>
   (scoreMap a key = None \<longrightarrow> scoreOf a key = 0) \<and>
   ((\<forall>key \<in> set priority. scoreOf a (keyName key) = scoreOf b (keyName key)) \<longrightarrow>
      \<not> spec_less a b priority) \<and>
   ByPriority_Less
     \<lparr>Logfiles =
        [\<lparr>FileName = ''2013/August/08/xyz-11.log'',
          MatchParts = Some [''Year'' \<mapsto> 2013, ''MonthName'' \<mapsto> 8, ''Day'' \<mapsto> 8, ''Seq'' \<mapsto> 11],
          StringMatchParts = None\<rparr>,
         \<lparr>FileName = ''2013/August/08/xyz-2.log'',
          MatchParts = Some [''Year'' \<mapsto> 2013, ''MonthName'' \<mapsto> 8, ''Day'' \<mapsto> 8, ''Seq'' \<mapsto> 2],
          StringMatchParts = None\<rparr>],
      Priority = [''Year'', ''MonthName'', ''Day'', ''^Seq'']\<rparr> 0 1 = Inr True"
proof -
  have "i < length fs \<and> j < length fs \<and> (\<forall>key \<in> set priority. key \<noteq> '''') \<longrightarrow>
      ByPriority_Less \<lparr>Logfiles = fs, Priority = priority\<rparr> i j =
        Inr (spec_less (fs ! i) (fs ! j) priority)"
    by (simp add: ByPriority_Less_def lessLoop_spec)
  moreover have "ByPriority_Less \<lparr>Logfiles = fs, Priority = priority\<rparr> i j = Inr r \<longrightarrow>
      r = spec_less (fs ! i) (fs ! j) priority"
    by (auto simp: ByPriority_Less_def split: if_splits dest: lessLoop_returns)
  moreover have "scoreMap a key = None \<longrightarrow> scoreOf a key = 0"
    by (simp add: scoreOf_def)
  moreover have "(\<forall>key \<in> set priority. scoreOf a (keyName key) = scoreOf b (keyName key)) \<longrightarrow>
      \<not> spec_less a b priority"
    using spec_less_all_tie by blast
  moreover have "ByPriority_Less
     \<lparr>Logfiles =
        [\<lparr>FileName = ''2013/August/08/xyz-11.log'',
          MatchParts = Some [''Year'' \<mapsto> 2013, ''MonthName'' \<mapsto> 8, ''Day'' \<mapsto> 8, ''Seq'' \<mapsto> 11],
          StringMatchParts = None\<rparr>,
         \<lparr>FileName = ''2013/August/08/xyz-2.log'',
          MatchParts = Some [''Year'' \<mapsto> 2013, ''MonthName'' \<mapsto> 8, ''Day'' \<mapsto> 8, ''Seq'' \<mapsto> 2],
          StringMatchParts = None\<rparr>],
      Priority = [''Year'', ''MonthName'', ''Day'', ''^Seq'']\<rparr> 0 1 = Inr True"
    by (simp add: ByPriority_Less_def scoreOf_def scoreMap_def)
  ultimately show ?thesis by blast
qed

text \<open>
  The theorem at two files that tie on Year and differ on Seq, with the priority Year,
  then Seq descending: the file with the higher Seq is the lesser one.
\<close>

theorem ByPriority_Less_semantics_witness:
  "(0::nat) < length [\<lparr>FileName = ''a'', MatchParts = Some [''Year'' \<mapsto> 2013, ''Seq'' \<mapsto> 11],
                       StringMatchParts = None\<rparr>,
                      \<lparr>FileName = ''b'', MatchParts = Some [''Year'' \<mapsto> 2013, ''Seq'' \<mapsto> 2],
                       StringMatchParts = None\<rparr>] \<and>
   (1::nat) < length [\<lparr>FileName = ''a'', MatchParts = Some [''Year'' \<mapsto> 2013, ''Seq'' \<mapsto> 11],
                       StringMatchParts = None\<rparr>,
                      \<lparr>FileName = ''b'', MatchParts = Some [''Year'' \<mapsto> 2013, ''Seq'' \<mapsto> 2],
                       StringMatchParts = None\<rparr>] \<and>
   ''Year'' \<noteq> '''' \<and> ''^Seq'' \<noteq> '''' \<and>
   ByPriority_Less
     \<lparr>Logfiles = [\<lparr>FileName = ''a'', MatchParts = Some [''Year'' \<mapsto> 2013, ''Seq'' \<mapsto> 11],
                    StringMatchParts = None\<rparr>,
                   \<lparr>FileName = ''b'', MatchParts = Some [''Year'' \<mapsto> 2013, ''Seq'' \<mapsto> 2],
                    StringMatchParts = None\<rparr>],
      Priority = [''Year'', ''^Seq'']\<rparr> 0 1 = Inr True \<and>
   spec_less \<lparr>FileName = ''a'', MatchParts = Some [''Year'' \<mapsto> 2013, ''Seq'' \<mapsto> 11],
               StringMatchParts = None\<rparr>
             \<lparr>FileName = ''b'', MatchParts = Some [''Year'' \<mapsto> 2013, ''Seq'' \<mapsto> 2],
               StringMatchParts = None\<rparr> [''Year'', ''^Seq''] = True \<and>
   scoreMap \<lparr>FileName = ''a'', MatchParts = Some [''Year'' \<mapsto> 2013, ''Seq'' \<mapsto> 11],
              StringMatchParts = None\<rparr> ''Day'' = None \<and>
   scoreOf \<lparr>FileName = ''a'', MatchParts = Some [''Year'' \<mapsto> 2013, ''Seq'' \<mapsto> 11],
             StringMatchParts = None\<rparr> ''Day'' = 0 \<and>
   scoreOf \<lparr>FileName = ''a'', MatchParts = Some [''Year'' \<mapsto> 2013, ''Seq'' \<mapsto> 11],
             StringMatchParts = None\<rparr> (keyName ''Year'') =
   scoreOf \<lparr>FileName = ''b'', MatchParts = Some [''Year'' \<mapsto> 2013, ''Seq'' \<mapsto> 2],
             StringMatchParts = None\<rparr> (keyName ''Year'') \<and>
   \<not> spec_less \<lparr>FileName = ''a'', MatchParts = Some [''Year'' \<mapsto> 2013, ''Seq'' \<mapsto> 11],
                 StringMatchParts = None\<rparr>
               \<lparr>FileName = ''b'', MatchParts = Some [''Year'' \<mapsto> 2013, ''Seq'' \<mapsto> 2],
                 StringMatchParts = None\<rparr> [''Year'']"
proof -
  let ?a = "\<lparr>FileName = ''a'', MatchParts = Some [''Year'' \<mapsto> 2013, ''Seq'' \<mapsto> 11],
               StringMatchParts = None\<rparr>"
  let ?b = "\<lparr>FileName = ''b'', MatchParts = Some [''Year'' \<mapsto> 2013, ''Seq'' \<mapsto> 2],
               StringMatchParts = None\<rparr>"
  have h: "(0::nat) < length [?a, ?b] \<and> (1::nat) < length [?a, ?b] \<and>
           (\<forall>key \<in> set [''Year'', ''^Seq'']. key \<noteq> '''')"
    by simp
  have s: "spec_less ?a ?b [''Year'', ''^Seq''] = True"
    by (simp add: less_defs)
  from ByPriority_Less_semantics[where fs = "[?a, ?b]" and i = 0 and j = 1
         and priority = "[''Year'', ''^Seq'']"] h
  have less: "ByPriority_Less \<lparr>Logfiles = [?a, ?b], Priority = [''Year'', ''^Seq'']\<rparr> 0 1 =
        Inr (spec_less ([?a, ?b] ! 0) ([?a, ?b] ! 1) [''Year'', ''^Seq''])"
    by blast
  have absent: "scoreMap ?a ''Day'' = None"
    by (simp add: scoreMap_def)
  from ByPriority_Less_semantics[where a = ?a and key = "''Day''"] absent
  have zero: "scoreOf ?a ''Day'' = 0"
    by blast
  have tie: "\<forall>key \<in> set [''Year'']. scoreOf ?a (keyName key) = scoreOf ?b (keyName key)"
    by (simp add: less_defs)
  from ByPriority_Less_semantics[where a = ?a and b = ?b and priority = "[''Year'']"] tie
  have notless: "\<not> spec_less ?a ?b [''Year'']"
    by blast
  from less s absent zero tie notless show ?thesis by simp
qed

text \<open>
  Claim C6 as it is written fails at a priority list with an empty key: with the priority
  of the one empty key, the two files of the claim's example tie on every key, so the
  claim has Less(A, B) false, and Less panics on the slice of the key.
\<close>

theorem ByPriority_Less_panics_on_empty_key:
  "scoreOf \<lparr>FileName = ''2013/August/08/xyz-11.log'',
             MatchParts = Some [''Year'' \<mapsto> 2013, ''MonthName'' \<mapsto> 8, ''Day'' \<mapsto> 8, ''Seq'' \<mapsto> 11],
             StringMatchParts = None\<rparr> (keyName '''') =
   scoreOf \<lparr>FileName = ''2013/August/08/xyz-2.log'',
             MatchParts = Some [''Year'' \<mapsto> 2013, ''MonthName'' \<mapsto> 8, ''Day'' \<mapsto> 8, ''Seq'' \<mapsto> 2],
             StringMatchParts = None\<rparr> (keyName '''') \<and>
   ByPriority_Less
     \<lparr>Logfiles =
        [\<lparr>FileName = ''2013/August/08/xyz-11.log'',
          MatchParts = Some [''Year'' \<mapsto> 2013, ''MonthName'' \<mapsto> 8, ''Day'' \<mapsto> 8, ''Seq'' \<mapsto> 11],
          StringMatchParts = None\<rparr>,
         \<lparr>FileName = ''2013/August/08/xyz-2.log'',
          MatchParts = Some [''Year'' \<mapsto> 2013, ''MonthName'' \<mapsto> 8, ''Day'' \<mapsto> 8, ''Seq'' \<mapsto> 2],
          StringMatchParts = None\<rparr>],
      Priority = ['''']\<rparr> 0 1 = Inl SliceBoundsOutOfRange"
  by (simp add: less_defs)

text \<open>
  Claim C9, as the code has it. With two indices into the collection, Less returns on every
  priority list whose keys are all non-empty. The claim says that an empty key makes Less
  panic for every pair of files; the loop reaches the slice expression of a key only when
  all the keys before it tie, so at the first empty key Less panics for the pairs that tie
  on every key before it, and returns what those keys decide for every other pair.
\<close>

theorem ByPriority_Less_total_unless_empty_key_reached:
  assumes "i < length fs" and "j < length fs"
  shows "((\<forall>key \<in> set priority. key \<noteq> '''') \<longrightarrow>
            (\<exists>r. ByPriority_Less \<lparr>Logfiles = fs, Priority = priority\<rparr> i j = Inr r)) \<and>
         ((\<forall>key \<in> set before. key \<noteq> '''') \<longrightarrow>
            ByPriority_Less \<lparr>Logfiles = fs, Priority = before @ '''' # rest\<rparr> i j =
              (if \<forall>key \<in> set before.
                    scoreOf (fs ! i) (keyName key) = scoreOf (fs ! j) (keyName key)
               then Inl SliceBoundsOutOfRange
               else Inr (spec_less (fs ! i) (fs ! j) before)))"
  using assms
  by (simp add: ByPriority_Less_def lessLoop_spec lessLoop_first_empty_key)

text \<open>
  The theorem at two files of the same Year and the priority Year, then the empty key:
  the pair ties on Year, and Less panics.
\<close>

theorem ByPriority_Less_total_unless_empty_key_reached_witness:
  "(0::nat) < length [\<lparr>FileName = ''a'', MatchParts = Some [''Year'' \<mapsto> 2013],
                       StringMatchParts = None\<rparr>,
                      \<lparr>FileName = ''b'', MatchParts = Some [''Year'' \<mapsto> 2013],
                       StringMatchParts = None\<rparr>] \<and>
   (1::nat) < length [\<lparr>FileName = ''a'', MatchParts = Some [''Year'' \<mapsto> 2013],
                       StringMatchParts = None\<rparr>,
                      \<lparr>FileName = ''b'', MatchParts = Some [''Year'' \<mapsto> 2013],
                       StringMatchParts = None\<rparr>] \<and>
   ''Year'' \<noteq> '''' \<and>
   (\<exists>r. ByPriority_Less
     \<lparr>Logfiles = [\<lparr>FileName = ''a'', MatchParts = Some [''Year'' \<mapsto> 2013],
                    StringMatchParts = None\<rparr>,
                   \<lparr>FileName = ''b'', MatchParts = Some [''Year'' \<mapsto> 2013],
                    StringMatchParts = None\<rparr>],
      Priority = [''Year'']\<rparr> 0 1 = Inr r) \<and>
   ByPriority_Less
     \<lparr>Logfiles = [\<lparr>FileName = ''a'', MatchParts = Some [''Year'' \<mapsto> 2013],
                    StringMatchParts = None\<rparr>,
                   \<lparr>FileName = ''b'', MatchParts = Some [''Year'' \<mapsto> 2013],
                    StringMatchParts = None\<rparr>],
      Priority = [''Year''] @ '''' # []\<rparr> 0 1 = Inl SliceBoundsOutOfRange"
proof -
  let ?a = "\<lparr>FileName = ''a'', MatchParts = Some [''Year'' \<mapsto> 2013],
               StringMatchParts = None\<rparr>"
  let ?b = "\<lparr>FileName = ''b'', MatchParts = Some [''Year'' \<mapsto> 2013],
               StringMatchParts = None\<rparr>"
  have h1: "(0::nat) < length [?a, ?b]" and h2: "(1::nat) < length [?a, ?b]"
    by simp_all
  have h3: "\<forall>key \<in> set [''Year'']. key \<noteq> ''''" by simp
  have tie: "\<forall>key \<in> set [''Year''].
               scoreOf ([?a, ?b] ! 0) (keyName key) = scoreOf ([?a, ?b] ! 1) (keyName key)"
    by (simp add: less_defs)
  from ByPriority_Less_total_unless_empty_key_reached[OF h1 h2,
         where priority = "[''Year'']" and before = "[''Year'']" and rest = "[]"] h3 tie
  have "(\<exists>r. ByPriority_Less \<lparr>Logfiles = [?a, ?b], Priority = [''Year'']\<rparr> 0 1 = Inr r) \<and>
        ByPriority_Less \<lparr>Logfiles = [?a, ?b], Priority = [''Year''] @ '''' # []\<rparr> 0 1 =
          Inl SliceBoundsOutOfRange"
    by presburger
  then show ?thesis by simp
qed

text \<open>
  Claim C9 as it is written fails at the priority Year, then the empty key, and two files
  of different years: the priority has an empty key, and Less returns true without a
  panic, since Year decides before the empty key is read.
\<close>

theorem ByPriority_Less_empty_key_not_reached:
  "'''' \<in> set [''Year'', ''''] \<and>
   ByPriority_Less
     \<lparr>Logfiles = [\<lparr>FileName = ''a'', MatchParts = Some [''Year'' \<mapsto> 2012],
                    StringMatchParts = None\<rparr>,
                   \<lparr>FileName = ''b'', MatchParts = Some [''Year'' \<mapsto> 2013],
                    StringMatchParts = None\<rparr>],
      Priority = [''Year'', '''']\<rparr> 0 1 = Inr True"
  by (simp add: ByPriority_Less_def scoreOf_def scoreMap_def)

section \<open>Grouping by differentiator\<close>

lemma resolveLoop_acc: "resolveLoop l ds name = name @ spec_identifier l ds"
  by (induction ds arbitrary: name) (simp_all add: spec_identifier_def split: option.splits)

lemma ResolveDifferentiatedName_spec:
  "ResolveDifferentiatedName l differentiator = spec_identifier l differentiator"
  by (simp add: ResolveDifferentiatedName_def resolveLoop_acc)

lemma spec_identifier_literal:
  "\<forall>d \<in> set differentiator. rawMap l d = None \<Longrightarrow>
   spec_identifier l differentiator = concat differentiator"
  by (induction differentiator) (simp_all add: spec_identifier_def)

text \<open>
  The loop of FilterMultipleStreamFiles adds to each group the files of its name, in the
  order of the input, and makes no other group.
\<close>

lemma filterLoop_lookup:
  "filterLoop files differentiator mfs k =
     (if \<exists>f \<in> set files. ResolveDifferentiatedName f differentiator = k
      then Some ((case mfs k of None \<Rightarrow> [] | Some fs \<Rightarrow> fs) @
                 filter (\<lambda>f. ResolveDifferentiatedName f differentiator = k) files)
      else mfs k)"
proof (induction files arbitrary: mfs)
  case Nil
  then show ?case by simp
next
  case (Cons logfile files)
  show ?case
    by (cases "mfs (ResolveDifferentiatedName logfile differentiator)")
       (auto simp: Cons.IH Let_def)
qed

lemma Filter_lookup:
  "FilterMultipleStreamFiles files differentiator k =
     (if \<exists>f \<in> set files. ResolveDifferentiatedName f differentiator = k
      then Some (filter (\<lambda>f. ResolveDifferentiatedName f differentiator = k) files)
      else None)"
  by (simp add: FilterMultipleStreamFiles_def filterLoop_lookup)

lemma Filter_same_group:
  assumes "f \<in> set files" and "g \<in> set files"
  shows "(\<exists>k fs. FilterMultipleStreamFiles files differentiator k = Some fs \<and>
                 f \<in> set fs \<and> g \<in> set fs) =
         (ResolveDifferentiatedName f differentiator =
          ResolveDifferentiatedName g differentiator)"
proof
  assume "\<exists>k fs. FilterMultipleStreamFiles files differentiator k = Some fs \<and>
                 f \<in> set fs \<and> g \<in> set fs"
  then obtain k fs where
    "FilterMultipleStreamFiles files differentiator k = Some fs" "f \<in> set fs" "g \<in> set fs"
    by blast
  then show "ResolveDifferentiatedName f differentiator =
             ResolveDifferentiatedName g differentiator"
    by (auto simp: Filter_lookup split: if_splits)
next
  assume eq: "ResolveDifferentiatedName f differentiator =
              ResolveDifferentiatedName g differentiator"
  let ?k = "ResolveDifferentiatedName f differentiator"
  let ?fs = "filter (\<lambda>h. ResolveDifferentiatedName h differentiator = ?k) files"
  from assms(1) have "FilterMultipleStreamFiles files differentiator ?k = Some ?fs"
    by (auto simp: Filter_lookup)
  moreover from assms eq have "f \<in> set ?fs" "g \<in> set ?fs"
    by simp_all
  ultimately show "\<exists>k fs. FilterMultipleStreamFiles files differentiator k = Some fs \<and>
                 f \<in> set fs \<and> g \<in> set fs"
    by blast
qed

lemma Filter_literal:
  assumes "files \<noteq> []"
    and "\<forall>f \<in> set files. \<forall>d \<in> set differentiator. rawMap f d = None"
  shows "FilterMultipleStreamFiles files differentiator = [concat differentiator \<mapsto> files]"
proof
  fix k
  from assms(2) have name: "\<forall>f \<in> set files.
      ResolveDifferentiatedName f differentiator = concat differentiator"
    by (simp add: ResolveDifferentiatedName_spec spec_identifier_literal)
  then have all: "filter (\<lambda>f. ResolveDifferentiatedName f differentiator =
                              concat differentiator) files = files"
    by (simp add: filter_id_conv)
  from assms(1) obtain f where f: "f \<in> set files"
    by (cases files) auto
  show "FilterMultipleStreamFiles files differentiator k =
        [concat differentiator \<mapsto> files] k"
  proof (cases "k = concat differentiator")
    case True
    with f name all show ?thesis
      by (auto simp: Filter_lookup)
  next
    case False
    with name show ?thesis
      by (auto simp: Filter_lookup)
  qed
qed

text \<open>
  Claim C7. The name that ResolveDifferentiatedName gives a file is the identifier of the
  specification. The group of FilterMultipleStreamFiles under a name is made of the files
  of that name, in the order of the input, and there is no group under a name that no file
  has; so two files of the input are in one group exactly when their names are equal.
  When the input is not empty and no token of the differentiator names a capture of any
  file, the result is the one group of all the files, under the tokens joined.
\<close>

theorem FilterMultipleStreamFiles_groups_by_identifier:
  "ResolveDifferentiatedName l differentiator = spec_identifier l differentiator \<and>
   FilterMultipleStreamFiles files differentiator k =
     (if \<exists>f \<in> set files. ResolveDifferentiatedName f differentiator = k
      then Some (filter (\<lambda>f. ResolveDifferentiatedName f differentiator = k) files)
      else None) \<and>
   (f \<in> set files \<and> g \<in> set files \<longrightarrow>
      (\<exists>k fs. FilterMultipleStreamFiles files differentiator k = Some fs \<and>
               f \<in> set fs \<and> g \<in> set fs) =
      (ResolveDifferentiatedName f differentiator =
       ResolveDifferentiatedName g differentiator)) \<and>
   (files \<noteq> [] \<and> (\<forall>f \<in> set files. \<forall>d \<in> set differentiator. rawMap f d = None) \<longrightarrow>
      FilterMultipleStreamFiles files differentiator = [concat differentiator \<mapsto> files])"
  using ResolveDifferentiatedName_spec[of l differentiator]
    Filter_lookup[of files differentiator k]
    Filter_same_group[of f files g differentiator]
    Filter_literal[of files differentiator]
  by blast

text \<open>
  The theorem at the files a-1.log, a-2.log and b-1.log with the capture Host: under the
  differentiator Host there are the two groups a and b, and under a differentiator of the
  one literal token all, which names no capture, the one group of the three files.
\<close>

theorem FilterMultipleStreamFiles_groups_by_identifier_witness:
  "ResolveDifferentiatedName
     \<lparr>FileName = ''a-1.log'', MatchParts = None, StringMatchParts = Some [''Host'' \<mapsto> ''a'']\<rparr>
     [''Host'', ''-'', ''x''] = ''a-x'' \<and>
   FilterMultipleStreamFiles
     [\<lparr>FileName = ''a-1.log'', MatchParts = None, StringMatchParts = Some [''Host'' \<mapsto> ''a'']\<rparr>,
      \<lparr>FileName = ''a-2.log'', MatchParts = None, StringMatchParts = Some [''Host'' \<mapsto> ''a'']\<rparr>,
      \<lparr>FileName = ''b-1.log'', MatchParts = None, StringMatchParts = Some [''Host'' \<mapsto> ''b'']\<rparr>]
     [''Host''] ''a'' =
   Some [\<lparr>FileName = ''a-1.log'', MatchParts = None, StringMatchParts = Some [''Host'' \<mapsto> ''a'']\<rparr>,
         \<lparr>FileName = ''a-2.log'', MatchParts = None, StringMatchParts = Some [''Host'' \<mapsto> ''a'']\<rparr>] \<and>
   FilterMultipleStreamFiles
     [\<lparr>FileName = ''a-1.log'', MatchParts = None, StringMatchParts = Some [''Host'' \<mapsto> ''a'']\<rparr>,
      \<lparr>FileName = ''a-2.log'', MatchParts = None, StringMatchParts = Some [''Host'' \<mapsto> ''a'']\<rparr>,
      \<lparr>FileName = ''b-1.log'', MatchParts = None, StringMatchParts = Some [''Host'' \<mapsto> ''b'']\<rparr>]
     [''Host''] ''b'' =
   Some [\<lparr>FileName = ''b-1.log'', MatchParts = None, StringMatchParts = Some [''Host'' \<mapsto> ''b'']\<rparr>] \<and>
   FilterMultipleStreamFiles
     [\<lparr>FileName = ''a-1.log'', MatchParts = None, StringMatchParts = Some [''Host'' \<mapsto> ''a'']\<rparr>,
      \<lparr>FileName = ''a-2.log'', MatchParts = None, StringMatchParts = Some [''Host'' \<mapsto> ''a'']\<rparr>,
      \<lparr>FileName = ''b-1.log'', MatchParts = None, StringMatchParts = Some [''Host'' \<mapsto> ''b'']\<rparr>]
     [''all''] =
   [concat [''all''] \<mapsto>
     [\<lparr>FileName = ''a-1.log'', MatchParts = None, StringMatchParts = Some [''Host'' \<mapsto> ''a'']\<rparr>,
      \<lparr>FileName = ''a-2.log'', MatchParts = None, StringMatchParts = Some [''Host'' \<mapsto> ''a'']\<rparr>,
      \<lparr>FileName = ''b-1.log'', MatchParts = None, StringMatchParts = Some [''Host'' \<mapsto> ''b'']\<rparr>]] \<and>
   (\<exists>k fs. FilterMultipleStreamFiles
     [\<lparr>FileName = ''a-1.log'', MatchParts = None, StringMatchParts = Some [''Host'' \<mapsto> ''a'']\<rparr>,
      \<lparr>FileName = ''a-2.log'', MatchParts = None, StringMatchParts = Some [''Host'' \<mapsto> ''a'']\<rparr>,
      \<lparr>FileName = ''b-1.log'', MatchParts = None, StringMatchParts = Some [''Host'' \<mapsto> ''b'']\<rparr>]
     [''Host''] k = Some fs \<and>
     \<lparr>FileName = ''a-1.log'', MatchParts = None, StringMatchParts = Some [''Host'' \<mapsto> ''a'']\<rparr>
       \<in> set fs \<and>
     \<lparr>FileName = ''a-2.log'', MatchParts = None, StringMatchParts = Some [''Host'' \<mapsto> ''a'']\<rparr>
       \<in> set fs) \<and>
   \<not> (\<exists>k fs. FilterMultipleStreamFiles
     [\<lparr>FileName = ''a-1.log'', MatchParts = None, StringMatchParts = Some [''Host'' \<mapsto> ''a'']\<rparr>,
      \<lparr>FileName = ''a-2.log'', MatchParts = None, StringMatchParts = Some [''Host'' \<mapsto> ''a'']\<rparr>,
      \<lparr>FileName = ''b-1.log'', MatchParts = None, StringMatchParts = Some [''Host'' \<mapsto> ''b'']\<rparr>]
     [''Host''] k = Some fs \<and>
     \<lparr>FileName = ''a-1.log'', MatchParts = None, StringMatchParts = Some [''Host'' \<mapsto> ''a'']\<rparr>
       \<in> set fs \<and>
     \<lparr>FileName = ''b-1.log'', MatchParts = None, StringMatchParts = Some [''Host'' \<mapsto> ''b'']\<rparr>
       \<in> set fs)"
proof -
  let ?a1 = "\<lparr>FileName = ''a-1.log'', MatchParts = None,
               StringMatchParts = Some [''Host'' \<mapsto> ''a'']\<rparr>"
  let ?a2 = "\<lparr>FileName = ''a-2.log'', MatchParts = None,
               StringMatchParts = Some [''Host'' \<mapsto> ''a'']\<rparr>"
  let ?b1 = "\<lparr>FileName = ''b-1.log'', MatchParts = None,
               StringMatchParts = Some [''Host'' \<mapsto> ''b'']\<rparr>"
  have names: "ResolveDifferentiatedName ?a1 [''Host''] = ''a''"
    "ResolveDifferentiatedName ?a2 [''Host''] = ''a''"
    "ResolveDifferentiatedName ?b1 [''Host''] = ''b''"
    by (simp_all add: ResolveDifferentiatedName_def rawMap_def)
  have h: "[?a1, ?a2, ?b1] \<noteq> [] \<and>
           (\<forall>f \<in> set [?a1, ?a2, ?b1]. \<forall>d \<in> set [''all'']. rawMap f d = None)"
    by (simp add: rawMap_def)
  have "ResolveDifferentiatedName ?a1 [''Host'', ''-'', ''x''] = ''a-x''"
    using FilterMultipleStreamFiles_groups_by_identifier
            [where l = ?a1 and differentiator = "[''Host'', ''-'', ''x'']"]
    by (simp add: spec_identifier_def rawMap_def)
  moreover have "FilterMultipleStreamFiles [?a1, ?a2, ?b1] [''Host''] ''a'' = Some [?a1, ?a2]"
    using FilterMultipleStreamFiles_groups_by_identifier
            [where files = "[?a1, ?a2, ?b1]" and differentiator = "[''Host'']" and k = "''a''"]
      names
    by simp
  moreover have "FilterMultipleStreamFiles [?a1, ?a2, ?b1] [''Host''] ''b'' = Some [?b1]"
    using FilterMultipleStreamFiles_groups_by_identifier
            [where files = "[?a1, ?a2, ?b1]" and differentiator = "[''Host'']" and k = "''b''"]
      names
    by simp
  moreover have "FilterMultipleStreamFiles [?a1, ?a2, ?b1] [''all''] =
                 [concat [''all''] \<mapsto> [?a1, ?a2, ?b1]]"
    using FilterMultipleStreamFiles_groups_by_identifier
            [where files = "[?a1, ?a2, ?b1]" and differentiator = "[''all'']"] h
    by blast
  moreover have "\<exists>k fs. FilterMultipleStreamFiles [?a1, ?a2, ?b1] [''Host''] k = Some fs \<and>
                   ?a1 \<in> set fs \<and> ?a2 \<in> set fs"
    using FilterMultipleStreamFiles_groups_by_identifier
            [where files = "[?a1, ?a2, ?b1]" and differentiator = "[''Host'']"
               and f = ?a1 and g = ?a2]
      names
    by simp
  moreover have "\<not> (\<exists>k fs. FilterMultipleStreamFiles [?a1, ?a2, ?b1] [''Host''] k = Some fs \<and>
                   ?a1 \<in> set fs \<and> ?b1 \<in> set fs)"
    using FilterMultipleStreamFiles_groups_by_identifier
            [where files = "[?a1, ?a2, ?b1]" and differentiator = "[''Host'']"
               and f = ?a1 and g = ?b1]
      names
    by simp
  ultimately show ?thesis by blast
qed

section \<open>The parse of a collection\<close>

text \<open>
  The loop over the slots panics only on an index out of range, and not at all when there
  is a match for every name.
\<close>

lemma populateLoop_panic:
  "populateLoop ToLower ns vs tr st = Inl p \<Longrightarrow> p = IndexOutOfRange"
  by (induction ToLower ns vs tr st rule: populateLoop.induct)
     (auto simp: Let_def split: sum.splits if_splits)

lemma populateLoop_in_bounds:
  "length ns \<le> length vs \<Longrightarrow> \<exists>r. populateLoop ToLower ns vs tr st = Inr r"
  by (induction ToLower ns vs tr st rule: populateLoop.induct)
     (auto simp: Let_def split: sum.splits)

lemma parseFile_match:
  assumes "regexp_ok re" and "MatchString re (FileName f)"
  shows "length (FindStringSubmatch re (FileName f)) = length (SubexpNames re)"
    and "\<exists>l' err. parseFile ToLower re tr f = Inr (l', err)"
proof -
  from assms show len: "length (FindStringSubmatch re (FileName f)) = length (SubexpNames re)"
    by (auto simp: regexp_ok_def MatchString_def)
  then have "\<exists>r. populateLoop ToLower (SubexpNames re) (FindStringSubmatch re (FileName f)) tr
                   (scoreMap f, rawMap f) = Inr r"
    by (intro populateLoop_in_bounds) simp
  then show "\<exists>l' err. parseFile ToLower re tr f = Inr (l', err)"
    by (auto simp: parseFile_def Logfile_PopulateMatchParts_def Let_def)
qed

lemma parseFile_no_match:
  assumes "regexp_ok re" and "\<not> MatchString re (FileName f)"
  shows "FindStringSubmatch re (FileName f) = []"
    and "parseFile ToLower re tr f = Inl IndexOutOfRange"
proof -
  from assms(2) show none: "FindStringSubmatch re (FileName f) = []"
    by (simp add: MatchString_def)
  from assms(1) obtain n ns where "SubexpNames re = n # ns"
    by (cases "SubexpNames re") (auto simp: regexp_ok_def)
  with none show "parseFile ToLower re tr f = Inl IndexOutOfRange"
    by (simp add: parseFile_def Logfile_PopulateMatchParts_def)
qed

lemma parseFile_panic: "parseFile ToLower re tr f = Inl p \<Longrightarrow> p = IndexOutOfRange"
  by (auto simp: parseFile_def Logfile_PopulateMatchParts_def Let_def
           split: sum.splits dest: populateLoop_panic)

text \<open>
  The loop over the files: when no file panics, every file is parsed on its own and the
  messages of the errors are added to the list in the order of the files; when a file
  panics, so does the loop.
\<close>

lemma populateFiles_all:
  "\<forall>f \<in> set fs. \<exists>l' err. parseFile ToLower re tr f = Inr (l', err) \<Longrightarrow>
   populateFiles ToLower re tr fs errorlist =
     Inr (map (parsedFile ToLower re tr) fs, errorlist @ List.map_filter (parseMessage ToLower re tr) fs)"
proof (induction fs arbitrary: errorlist)
  case Nil
  then show ?case by (simp add: List.map_filter_simps)
next
  case (Cons f fs)
  from Cons.prems obtain l' err where f: "parseFile ToLower re tr f = Inr (l', err)"
    by auto
  from Cons.prems have rest: "\<forall>g \<in> set fs. \<exists>l' err. parseFile ToLower re tr g = Inr (l', err)"
    by simp
  from f have pf: "Logfile_PopulateMatchParts ToLower f (SubexpNames re)
                     (FindStringSubmatch re (FileName f)) tr = Inr (l', err)"
    by (simp add: parseFile_def)
  show ?case
    using f
    by (cases err)
       (simp_all add: pf Cons.IH[OF rest] parsedFile_def parseMessage_def AddMessage_def
          List.map_filter_simps)
qed

lemma populateFiles_panic:
  "f \<in> set fs \<Longrightarrow> parseFile ToLower re tr f = Inl p \<Longrightarrow>
   populateFiles ToLower re tr fs errorlist = Inl IndexOutOfRange"
proof (induction fs arbitrary: errorlist)
  case Nil
  then show ?case by simp
next
  case (Cons g fs)
  show ?case
  proof (cases "parseFile ToLower re tr g")
    case (Inl q)
    then have "q = IndexOutOfRange" by (rule parseFile_panic)
    with Inl show ?thesis
      by (simp add: parseFile_def)
  next
    case (Inr r)
    with Cons.prems have "f \<in> set fs" by auto
    from Cons.IH[OF this Cons.prems(2)] Inr show ?thesis
      by (cases r) (simp add: parseFile_def)
  qed
qed

lemma scanLoop_matches:
  "\<forall>f \<in> set files. MatchString re (FileName f) \<Longrightarrow>
   \<forall>f \<in> set (scanLoop entries re files). MatchString re (FileName f)"
proof (induction entries arbitrary: files)
  case Nil
  then show ?case by simp
next
  case (Cons e entries)
  show ?case
  proof (cases "\<not> (walkErr e \<or> isDir e) \<and> MatchString re (path e)")
    case True
    with Cons.prems
    have "\<forall>f \<in> set (files @ [scanned (path e)]). MatchString re (FileName f)"
      by (simp add: scanned_def)
    from Cons.IH[OF this] True show ?thesis by simp
  next
    case False
    with Cons.IH[OF Cons.prems] show ?thesis by auto
  qed
qed

lemma Scan_matches:
  "\<forall>f \<in> set (ScanDirectoryForLogfiles entries re). MatchString re (FileName f)"
  unfolding ScanDirectoryForLogfiles_def by (rule scanLoop_matches) simp

lemma Join_Cons: "Join (m # ms) sep = m @ concat (map (\<lambda>x. sep @ x) ms)"
  by (induction ms arbitrary: m) simp_all

lemma Logfiles_Populate_all:
  assumes "\<forall>f \<in> set fs. \<exists>l' err. parseFile ToLower re tr f = Inr (l', err)"
  shows "Logfiles_PopulateMatchParts ToLower fs re tr =
     Inr (map (parsedFile ToLower re tr) fs,
          if List.map_filter (parseMessage ToLower re tr) fs = [] then None
          else Some (List.map_filter (parseMessage ToLower re tr) fs))"
  by (simp add: Logfiles_PopulateMatchParts_def populateFiles_all[OF assms]
        NewMultipleError_def IsError_def)

text \<open>
  Claim C8, as the code has it. The claim speaks of every collection; a file whose name
  does not match the pattern makes the call panic. For a collection whose file names all
  match the pattern, Logfiles.PopulateMatchParts parses every file, whatever the files
  before it did: the collection it leaves is each file after its own parse, in place. The
  error it returns holds the messages of the files that failed, in order, one for each,
  and is nil when there is none; its text is the messages with the separator between
  them. A file with no message is the file that its own parse returned without an error.
\<close>

theorem Logfiles_PopulateMatchParts_collects_errors:
  assumes "regexp_ok re"
    and "\<forall>f \<in> set fs. MatchString re (FileName f)"
  shows "Logfiles_PopulateMatchParts ToLower fs re tr =
           Inr (map (parsedFile ToLower re tr) fs,
                if List.map_filter (parseMessage ToLower re tr) fs = [] then None
                else Some (List.map_filter (parseMessage ToLower re tr) fs)) \<and>
         length (List.map_filter (parseMessage ToLower re tr) fs) =
           length (filter (\<lambda>f. parseMessage ToLower re tr f \<noteq> None) fs) \<and>
         MultipleError_Error (m # ms) = m @ concat (map (\<lambda>x. '' :: '' @ x) ms) \<and>
         (\<forall>f \<in> set fs. parseMessage ToLower re tr f = None \<longrightarrow>
            parseFile ToLower re tr f = Inr (parsedFile ToLower re tr f, None))"
proof -
  from assms have ok: "\<forall>f \<in> set fs. \<exists>l' err. parseFile ToLower re tr f = Inr (l', err)"
    using parseFile_match(2) by blast
  have "\<forall>f \<in> set fs. parseMessage ToLower re tr f = None \<longrightarrow>
            parseFile ToLower re tr f = Inr (parsedFile ToLower re tr f, None)"
  proof (intro ballI impI)
    fix f assume "f \<in> set fs" and none: "parseMessage ToLower re tr f = None"
    with ok obtain l' err where "parseFile ToLower re tr f = Inr (l', err)" by blast
    with none show "parseFile ToLower re tr f = Inr (parsedFile ToLower re tr f, None)"
      by (simp add: parseMessage_def parsedFile_def)
  qed
  moreover have "length (List.map_filter (parseMessage ToLower re tr) fs) =
           length (filter (\<lambda>f. parseMessage ToLower re tr f \<noteq> None) fs)"
    by (simp add: List.map_filter_def)
  moreover have "MultipleError_Error (m # ms) = m @ concat (map (\<lambda>x. '' :: '' @ x) ms)"
    by (simp only: MultipleError_Error_def Join_Cons)
  ultimately show ?thesis
    using Logfiles_Populate_all[OF ok] by blast
qed

lemma monthPattern_ok: "regexp_ok monthPattern"
  by (simp add: regexp_ok_def monthPattern_def)

lemmas collection_defs =
  parsedFile_def parseMessage_def parseFile_def monthPattern_def MatchString_def
  List.map_filter_simps

text \<open>
  The theorem at the files m-May and m-Foo: the second fails, the error holds its one
  message, and the first keeps its raw value and its score 5.
\<close>

theorem Logfiles_PopulateMatchParts_collects_errors_witness:
  "regexp_ok monthPattern \<and>
   MatchString monthPattern (FileName (scanned ''m-May'')) \<and>
   MatchString monthPattern (FileName (scanned ''m-Foo'')) \<and>
   Logfiles_PopulateMatchParts asciiToLower [scanned ''m-May'', scanned ''m-Foo''] monthPattern Map.empty =
     Inr ([\<lparr>FileName = ''m-May'', MatchParts = Some [''MonthName'' \<mapsto> 5],
            StringMatchParts = Some ['''' \<mapsto> ''m-May'', ''MonthName'' \<mapsto> ''May'']\<rparr>,
           \<lparr>FileName = ''m-Foo'', MatchParts = Some Map.empty,
            StringMatchParts = Some ['''' \<mapsto> ''m-Foo'', ''MonthName'' \<mapsto> ''Foo'']\<rparr>],
          Some [''Unable to locate month name: Foo'']) \<and>
   MultipleError_Error [''Unable to locate month name: Foo'', ''Unable to locate month name: Bar''] =
     ''Unable to locate month name: Foo :: Unable to locate month name: Bar'' \<and>
   parseMessage asciiToLower monthPattern Map.empty (scanned ''m-May'') = None \<and>
   parseFile asciiToLower monthPattern Map.empty (scanned ''m-May'') =
     Inr (parsedFile asciiToLower monthPattern Map.empty (scanned ''m-May''), None)"
proof -
  have h1: "regexp_ok monthPattern" by (rule monthPattern_ok)
  have m: "MatchString monthPattern (FileName (scanned ''m-May''))"
    "MatchString monthPattern (FileName (scanned ''m-Foo''))"
    by (simp_all add: MatchString_def monthPattern_def scanned_def)
  then have h2: "\<forall>f \<in> set [scanned ''m-May'', scanned ''m-Foo''].
                   MatchString monthPattern (FileName f)"
    by simp
  have may: "parseFile asciiToLower monthPattern Map.empty (scanned ''m-May'') =
     Inr (\<lparr>FileName = ''m-May'', MatchParts = Some [''MonthName'' \<mapsto> 5],
            StringMatchParts = Some ['''' \<mapsto> ''m-May'', ''MonthName'' \<mapsto> ''May'']\<rparr>, None)"
    by (simp add: parseFile_def monthPattern_def parse_defs go_defs)
  have foo: "parseFile asciiToLower monthPattern Map.empty (scanned ''m-Foo'') =
     Inr (\<lparr>FileName = ''m-Foo'', MatchParts = Some Map.empty,
            StringMatchParts = Some ['''' \<mapsto> ''m-Foo'', ''MonthName'' \<mapsto> ''Foo'']\<rparr>,
          Some ''Unable to locate month name: Foo'')"
    by (simp add: parseFile_def monthPattern_def parse_defs go_defs)
  from Logfiles_PopulateMatchParts_collects_errors[OF h1 h2,
         where tr = Map.empty and m = "''Unable to locate month name: Foo''"
           and ms = "[''Unable to locate month name: Bar'']"]
  show ?thesis
    using h1 m
    by (simp add: parsedFile_def parseMessage_def may foo List.map_filter_simps)
qed

text \<open>
  Claim C8 as it is written fails at a collection with a file whose name does not match
  the pattern: of the three files m-Foo, other.txt and m-May the first fails to parse, the
  second has no match, and Logfiles.PopulateMatchParts panics on it; it returns no error,
  and m-May is never parsed.
\<close>

theorem Logfiles_PopulateMatchParts_panics_on_unmatched_name:
  "regexp_ok monthPattern \<and>
   \<not> MatchString monthPattern (FileName (scanned ''other.txt'')) \<and>
   Logfiles_PopulateMatchParts asciiToLower
     [scanned ''m-Foo'', scanned ''other.txt'', scanned ''m-May''] monthPattern Map.empty =
   Inl IndexOutOfRange"
  by (simp add: regexp_ok_def Logfiles_PopulateMatchParts_def MatchString_def monthPattern_def
        NewMultipleError_def AddMessage_def parse_defs go_defs)

text \<open>
  Claim C10. For a compiled pattern, a collection whose file names all match has a match
  for every name of the pattern, in every file, and Logfiles.PopulateMatchParts returns;
  the files that ScanDirectoryForLogfiles makes with the same pattern are such a
  collection. A file whose name does not match has the empty list of matches, and
  Logfiles.PopulateMatchParts panics with an index out of range on a collection that
  holds one.
\<close>

theorem Logfiles_PopulateMatchParts_index_bounds:
  assumes "regexp_ok re"
  shows "((\<forall>f \<in> set fs. MatchString re (FileName f)) \<longrightarrow>
            (\<forall>f \<in> set fs. length (FindStringSubmatch re (FileName f)) =
                           length (SubexpNames re)) \<and>
            (\<exists>r. Logfiles_PopulateMatchParts ToLower fs re tr = Inr r)) \<and>
         (\<exists>r. Logfiles_PopulateMatchParts ToLower (ScanDirectoryForLogfiles entries re) re tr = Inr r) \<and>
         (f \<in> set fs \<and> \<not> MatchString re (FileName f) \<longrightarrow>
            FindStringSubmatch re (FileName f) = [] \<and>
            Logfiles_PopulateMatchParts ToLower fs re tr = Inl IndexOutOfRange)"
proof -
  have returns: "\<exists>r. Logfiles_PopulateMatchParts ToLower gs re tr = Inr r"
    if "\<forall>g \<in> set gs. MatchString re (FileName g)" for gs
  proof -
    from that assms have "\<forall>g \<in> set gs. \<exists>l' err. parseFile ToLower re tr g = Inr (l', err)"
      using parseFile_match(2) by blast
    from Logfiles_Populate_all[OF this] show ?thesis by blast
  qed
  have "(\<forall>f \<in> set fs. MatchString re (FileName f)) \<longrightarrow>
            (\<forall>f \<in> set fs. length (FindStringSubmatch re (FileName f)) =
                           length (SubexpNames re)) \<and>
            (\<exists>r. Logfiles_PopulateMatchParts ToLower fs re tr = Inr r)"
    using returns[of fs] parseFile_match(1)[OF assms] by blast
  moreover have "\<exists>r. Logfiles_PopulateMatchParts ToLower (ScanDirectoryForLogfiles entries re) re tr =
                     Inr r"
    using returns[of "ScanDirectoryForLogfiles entries re"] Scan_matches by blast
  moreover have "f \<in> set fs \<and> \<not> MatchString re (FileName f) \<longrightarrow>
            FindStringSubmatch re (FileName f) = [] \<and>
            Logfiles_PopulateMatchParts ToLower fs re tr = Inl IndexOutOfRange"
  proof (intro impI)
    assume a: "f \<in> set fs \<and> \<not> MatchString re (FileName f)"
    then have none: "FindStringSubmatch re (FileName f) = []"
      and panic: "parseFile ToLower re tr f = Inl IndexOutOfRange"
      using parseFile_no_match[OF assms] by blast+
    from a populateFiles_panic[OF _ panic]
    have "populateFiles ToLower re tr fs NewMultipleError = Inl IndexOutOfRange"
      by blast
    with none show "FindStringSubmatch re (FileName f) = [] \<and>
            Logfiles_PopulateMatchParts ToLower fs re tr = Inl IndexOutOfRange"
      by (simp add: Logfiles_PopulateMatchParts_def)
  qed
  ultimately show ?thesis by blast
qed

text \<open>
  The theorem at the pattern of the examples: the scan of a directory with m-May, a
  subdirectory and a file of another name keeps m-May alone, and its parse returns; a
  collection that holds the file of the other name panics.
\<close>

theorem Logfiles_PopulateMatchParts_index_bounds_witness:
  "regexp_ok monthPattern \<and>
   ScanDirectoryForLogfiles
     [\<lparr>path = ''m-May'', isDir = False, walkErr = False\<rparr>,
      \<lparr>path = ''sub'', isDir = True, walkErr = False\<rparr>,
      \<lparr>path = ''other.txt'', isDir = False, walkErr = False\<rparr>] monthPattern =
     [scanned ''m-May''] \<and>
   (\<exists>r. Logfiles_PopulateMatchParts asciiToLower
     (ScanDirectoryForLogfiles
       [\<lparr>path = ''m-May'', isDir = False, walkErr = False\<rparr>,
        \<lparr>path = ''sub'', isDir = True, walkErr = False\<rparr>,
        \<lparr>path = ''other.txt'', isDir = False, walkErr = False\<rparr>] monthPattern)
     monthPattern Map.empty = Inr r) \<and>
   scanned ''other.txt'' \<in> set [scanned ''m-May'', scanned ''other.txt''] \<and>
   \<not> MatchString monthPattern (FileName (scanned ''other.txt'')) \<and>
   FindStringSubmatch monthPattern (FileName (scanned ''other.txt'')) = [] \<and>
   Logfiles_PopulateMatchParts asciiToLower [scanned ''m-May'', scanned ''other.txt''] monthPattern
     Map.empty = Inl IndexOutOfRange \<and>
   MatchString monthPattern (FileName (scanned ''m-May'')) \<and>
   MatchString monthPattern (FileName (scanned ''m-Foo'')) \<and>
   length (FindStringSubmatch monthPattern (FileName (scanned ''m-Foo''))) =
     length (SubexpNames monthPattern) \<and>
   (\<exists>r. Logfiles_PopulateMatchParts asciiToLower [scanned ''m-May'', scanned ''m-Foo''] monthPattern
          Map.empty = Inr r)"
proof -
  have h: "regexp_ok monthPattern" by (rule monthPattern_ok)
  have scan: "ScanDirectoryForLogfiles
     [\<lparr>path = ''m-May'', isDir = False, walkErr = False\<rparr>,
      \<lparr>path = ''sub'', isDir = True, walkErr = False\<rparr>,
      \<lparr>path = ''other.txt'', isDir = False, walkErr = False\<rparr>] monthPattern =
     [scanned ''m-May'']"
    by (simp add: ScanDirectoryForLogfiles_def MatchString_def monthPattern_def)
  have other: "scanned ''other.txt'' \<in> set [scanned ''m-May'', scanned ''other.txt''] \<and>
               \<not> MatchString monthPattern (FileName (scanned ''other.txt''))"
    by (simp add: MatchString_def monthPattern_def scanned_def)
  from Logfiles_PopulateMatchParts_index_bounds[OF h,
         where fs = "[scanned ''m-May'', scanned ''other.txt'']"
           and f = "scanned ''other.txt''" and tr = Map.empty
           and entries = "[\<lparr>path = ''m-May'', isDir = False, walkErr = False\<rparr>,
      \<lparr>path = ''sub'', isDir = True, walkErr = False\<rparr>,
      \<lparr>path = ''other.txt'', isDir = False, walkErr = False\<rparr>]"] other
  have "(\<exists>r. Logfiles_PopulateMatchParts asciiToLower
     (ScanDirectoryForLogfiles
       [\<lparr>path = ''m-May'', isDir = False, walkErr = False\<rparr>,
        \<lparr>path = ''sub'', isDir = True, walkErr = False\<rparr>,
        \<lparr>path = ''other.txt'', isDir = False, walkErr = False\<rparr>] monthPattern)
     monthPattern Map.empty = Inr r) \<and>
    FindStringSubmatch monthPattern (FileName (scanned ''other.txt'')) = [] \<and>
    Logfiles_PopulateMatchParts asciiToLower [scanned ''m-May'', scanned ''other.txt''] monthPattern
      Map.empty = Inl IndexOutOfRange"
    by blast
  moreover have m: "MatchString monthPattern (FileName (scanned ''m-May''))"
    "MatchString monthPattern (FileName (scanned ''m-Foo''))"
    by (simp_all add: MatchString_def monthPattern_def scanned_def)
  moreover from m
  have "\<forall>f \<in> set [scanned ''m-May'', scanned ''m-Foo'']. MatchString monthPattern (FileName f)"
    by simp
  with Logfiles_PopulateMatchParts_index_bounds[OF h,
         where fs = "[scanned ''m-May'', scanned ''m-Foo'']" and tr = Map.empty]
  have "length (FindStringSubmatch monthPattern (FileName (scanned ''m-Foo''))) =
          length (SubexpNames monthPattern) \<and>
        (\<exists>r. Logfiles_PopulateMatchParts asciiToLower [scanned ''m-May'', scanned ''m-Foo''] monthPattern
               Map.empty = Inr r)"
    by simp
  ultimately show ?thesis using h scan other by blast
qed

end
